theory Spec2Isabelle
  imports Complex_Main
begin

section \<open>JavaScript values and strings\<close>

text \<open>
  The server is one Express application: five route handlers and one middleware over a
  SQLite database of four tables. Each handler is embedded as a function from the
  database (and the log of mail sent) to the new database and the HTTP reply.

  A field of a JSON request body is a JavaScript value. A number is finite or one of
  the two infinities, which \<^verbatim>\<open>JSON.parse\<close> gives for a literal too large for a double
  (\<^verbatim>\<open>1e400\<close>); JSON has no \<^verbatim>\<open>NaN\<close>. Arrays and objects are one opaque constructor: the
  handlers only test them for truthiness, type and strict equality with a string. A
  string is a list of code units; the model covers the code units below 256.
\<close>

datatype number = Finite real | PosInfinity | NegInfinity

datatype jsval = JUndefined | JNull | JBool bool | JNum number | JStr string | JObject

text \<open>\<^verbatim>\<open>!v\<close> is \<open>\<not> truthy v\<close>.\<close>

fun truthy :: "jsval \<Rightarrow> bool" where
  "truthy JUndefined = False"
| "truthy JNull = False"
| "truthy (JBool b) = b"
| "truthy (JNum n) = (n \<noteq> Finite 0)"
| "truthy (JStr s) = (s \<noteq> [])"
| "truthy JObject = True"

text \<open>
  The fields \<^verbatim>\<open>email\<close> and \<^verbatim>\<open>viewerEmail\<close> are handed to the database driver, whose
  treatment of a number, a boolean, an array or an object is not part of this program.
  They are taken at the type of JSON strings, \<open>None\<close> for a field that is absent (or
  \<^verbatim>\<open>null\<close>); \<^verbatim>\<open>!email\<close> is then \<open>falsy email\<close>.
\<close>

fun falsy :: "string option \<Rightarrow> bool" where
  "falsy None = True"
| "falsy (Some s) = (s = [])"

text \<open>\<^verbatim>\<open>s.split(sep)\<close> for a separator of one character, and \<^verbatim>\<open>xs[i]\<close> (\<open>None\<close> is
  \<^verbatim>\<open>undefined\<close>).\<close>

fun js_split :: "char \<Rightarrow> string \<Rightarrow> string list" where
  "js_split sep [] = [[]]"
| "js_split sep (c # cs) =
     (if c = sep then [] # js_split sep cs
      else (case js_split sep cs of [] \<Rightarrow> [[c]] | w # ws \<Rightarrow> (c # w) # ws))"

definition nth_opt :: "'a list \<Rightarrow> nat \<Rightarrow> 'a option" where
  "nth_opt xs i = (if i < length xs then Some (xs ! i) else None)"

text \<open>\<^verbatim>\<open>String(n)\<close> for a natural number \<open>n\<close>.\<close>

definition digit_char :: "nat \<Rightarrow> char" where
  "digit_char d = char_of (48 + d)"

fun show_nat :: "nat \<Rightarrow> string" where
  "show_nat n = (if n < 10 then [digit_char n] else show_nat (n div 10) @ [digit_char (n mod 10)])"

declare show_nat.simps [simp del]

subsection \<open>Regular expressions\<close>

text \<open>
  \<^verbatim>\<open>re.test(s)\<close> for a pattern anchored at both ends, by derivatives. \<open>NoneOf cs\<close> is
  a negated character class.
\<close>

datatype rx = Never | Empty | Lit char | NoneOf "char list" | Cat rx rx | Alt rx rx | Rep rx

fun nullable :: "rx \<Rightarrow> bool" where
  "nullable Never = False"
| "nullable Empty = True"
| "nullable (Lit c) = False"
| "nullable (NoneOf cs) = False"
| "nullable (Cat r s) = (nullable r \<and> nullable s)"
| "nullable (Alt r s) = (nullable r \<or> nullable s)"
| "nullable (Rep r) = True"

fun deriv :: "char \<Rightarrow> rx \<Rightarrow> rx" where
  "deriv a Never = Never"
| "deriv a Empty = Never"
| "deriv a (Lit c) = (if a = c then Empty else Never)"
| "deriv a (NoneOf cs) = (if a \<in> set cs then Never else Empty)"
| "deriv a (Cat r s) =
     (if nullable r then Alt (Cat (deriv a r) s) (deriv a s) else Cat (deriv a r) s)"
| "deriv a (Alt r s) = Alt (deriv a r) (deriv a s)"
| "deriv a (Rep r) = Cat (deriv a r) (Rep r)"

definition rx_test :: "rx \<Rightarrow> string \<Rightarrow> bool" where
  "rx_test r s = nullable (fold deriv s r)"

text \<open>\<^verbatim>\<open>r+\<close>, and the class \<^verbatim>\<open>[^\s@]\<close>: the white space of JavaScript below code unit 256
  is tab, line feed, vertical tab, form feed, carriage return, space and no-break space.\<close>

definition rx_plus :: "rx \<Rightarrow> rx" where
  "rx_plus r = Cat r (Rep r)"

definition js_space :: "char list" where
  "js_space = [CHR 0x09, CHR 0x0A, CHR 0x0B, CHR 0x0C, CHR 0x0D, CHR 0x20, CHR 0xA0]"

definition not_space_at :: rx where
  "not_space_at = NoneOf (js_space @ [CHR ''@''])"

section \<open>The database\<close>

text \<open>
  One record per table row, one list per table, in insertion order. The columns
  \<^verbatim>\<open>createdAt\<close> of \<^verbatim>\<open>users\<close>, \<^verbatim>\<open>otps\<close> and \<^verbatim>\<open>permissions\<close> and the column \<^verbatim>\<open>id\<close> of
  \<^verbatim>\<open>permissions\<close> are read by no statement and are left out. A column \<^verbatim>\<open>REAL\<close> holds a
  double, infinities included. A column holds a value of its declared type; \<^verbatim>\<open>NULL\<close>, which no statement of the
  program writes, is not modelled. \<^verbatim>\<open>expiresAt\<close> is the ISO date string of a time in
  milliseconds and is kept as that number; \<^verbatim>\<open>updatedAt\<close> is SQLite's
  \<^verbatim>\<open>CURRENT_TIMESTAMP\<close>, a UTC date string to the second, kept as the number of
  seconds (the strings compare as the numbers do).
\<close>

record otp_row =
  o_id :: nat
  o_email :: string
  o_code :: string
  o_expiresAt :: int
  o_consumed :: int

record user_row =
  u_id :: nat
  u_email :: string
  u_is_verified :: int
  u_role :: string

record location_row =
  l_id :: nat
  l_email :: string
  l_lat :: number
  l_lng :: number
  l_updatedAt :: int

record permission_row =
  p_viewer_email :: string
  p_sharer_email :: string
  p_granted :: int

text \<open>The state: the four tables and \<open>outbox\<close>, the calls of \<^verbatim>\<open>transporter.sendMail\<close> made so
  far (recipient and code).\<close>

record world =
  otps :: "otp_row list"
  users :: "user_row list"
  locations :: "location_row list"
  permissions :: "permission_row list"
  outbox :: "(string \<times> string) list"

definition init_world :: world where
  "init_world = \<lparr>otps = [], users = [], locations = [], permissions = [], outbox = []\<rparr>"

text \<open>\<^verbatim>\<open>INTEGER PRIMARY KEY AUTOINCREMENT\<close> in \<^verbatim>\<open>otps\<close>, \<^verbatim>\<open>users\<close> and \<^verbatim>\<open>locations\<close>: a new row
  gets the id after the largest one given so far, which is the largest id of the
  table, since no statement deletes a row and every \<^verbatim>\<open>INSERT\<close> into these three tables
  adds one.\<close>

definition next_id :: "nat list \<Rightarrow> nat" where
  "next_id ids = Suc (foldr max ids 0)"

text \<open>\<^verbatim>\<open>ORDER BY ... LIMIT 1\<close> with \<^verbatim>\<open>.get()\<close>: the row that sorts first, \<open>None\<close>
  (\<^verbatim>\<open>undefined\<close>) when no row is selected. \<open>before a b\<close> says that \<open>a\<close> sorts
  before \<open>b\<close>.\<close>

fun order_limit1 :: "('a \<Rightarrow> 'a \<Rightarrow> bool) \<Rightarrow> 'a list \<Rightarrow> 'a option" where
  "order_limit1 before [] = None"
| "order_limit1 before (r # rs) =
     (case order_limit1 before rs of
        None \<Rightarrow> Some r
      | Some b \<Rightarrow> if before b r then Some b else Some r)"

section \<open>Configuration and environment\<close>

text \<open>
  \<open>OTP_TTL\<close> is the number of seconds read from the environment. \<^verbatim>\<open>jwt.sign\<close> and
  \<^verbatim>\<open>jwt.verify\<close> with the configured secret are parameters: \<open>jwt_sign p t\<close> is the token
  signed at time \<open>t\<close> for the payload \<open>p\<close>, \<open>jwt_verify tok t\<close> the payload of a token
  that verifies at time \<open>t\<close>, \<open>None\<close> when \<^verbatim>\<open>jwt.verify\<close> throws.
\<close>

record token_payload =
  t_sub :: string
  t_email :: string
  t_role :: string

record config =
  OTP_TTL :: int
  jwt_sign :: "token_payload \<Rightarrow> int \<Rightarrow> string"
  jwt_verify :: "string \<Rightarrow> int \<Rightarrow> token_payload option"

text \<open>
  What one request sees of the outside: the clock in milliseconds, the DNS resolver,
  the random digits, and the mail transport, which throws or returns the list
  \<^verbatim>\<open>info.rejected\<close> (empty when it is absent). \<open>io_random i\<close> is the value of
  \<^verbatim>\<open>Math.floor(Math.random() * 10)\<close> at its \<open>i\<close>-th evaluation, a number from 0 to 9: the
  floating-point product is the environment's, not the model's.
\<close>

datatype 'a outcome = Throws | Returns 'a

record io =
  io_now :: int
  io_resolveMx :: "string \<Rightarrow> string list outcome"
  io_random :: "nat \<Rightarrow> nat"
  io_sendMail :: "string \<Rightarrow> string \<Rightarrow> string list outcome"

section \<open>Replies\<close>

datatype err =
    email_required | invalid_email_format | invalid_email_domain | email_failed
  | email_and_otp_required | no_otp_requested | otp_expired | invalid_otp
  | missing_token | invalid_token
  | only_sharers_can_post | lat_and_lng_required
  | only_viewers_can_fetch | no_permission | no_location_found
  | only_sharers_can_grant | viewer_email_required
  | internal_error

text \<open>The bodies of the replies with status 200: \<open>verified token email role\<close> is
  \<^verbatim>\<open>{ token, user: { email, role, isVerified: true } }\<close>, \<open>location email lat lng updatedAt\<close>
  the selected row as \<^verbatim>\<open>res.json\<close> writes it: \<^verbatim>\<open>JSON.stringify\<close> turns a number that is not
  finite into \<^verbatim>\<open>null\<close>.\<close>

datatype body =
    otp_sent
  | verified string string string
  | location_saved
  | location string jsval jsval int
  | permission_granted

type_synonym reply = "(nat \<times> err) + body"

definition json_number :: "number \<Rightarrow> jsval" where
  "json_number n = (case n of Finite x \<Rightarrow> JNum (Finite x) | _ \<Rightarrow> JNull)"

section \<open>Helpers\<close>

definition generateOtp :: "nat \<Rightarrow> (nat \<Rightarrow> nat) \<Rightarrow> string" where
  "generateOtp n rnd = concat (map (\<lambda>i. show_nat (rnd i)) [0..<n])"

definition signToken :: "config \<Rightarrow> int \<Rightarrow> user_row \<Rightarrow> string" where
  "signToken cfg t user =
     jwt_sign cfg \<lparr>t_sub = u_email user, t_email = u_email user, t_role = u_role user\<rparr> t"

definition email_rx :: rx where
  "email_rx =
     Cat (rx_plus not_space_at) (Cat (Lit CHR ''@'')
       (Cat (rx_plus not_space_at) (Cat (Lit CHR ''.'') (rx_plus not_space_at))))"

definition isValidEmailFormat :: "string \<Rightarrow> bool" where
  "isValidEmailFormat email = rx_test email_rx email"

definition domainHasMX :: "io \<Rightarrow> string \<Rightarrow> bool" where
  "domainHasMX env email =
     (case nth_opt (js_split CHR ''@'' email) 1 of
        None \<Rightarrow> False
      | Some domain \<Rightarrow>
          if domain = [] then False
          else (case io_resolveMx env domain of
                  Throws \<Rightarrow> False
                | Returns records \<Rightarrow> records \<noteq> []))"

text \<open>\<open>sendOtpEmail\<close>: \<open>True\<close> when it returns, \<open>False\<close> when it throws.\<close>

definition sendOtpEmail :: "io \<Rightarrow> string \<Rightarrow> string \<Rightarrow> bool" where
  "sendOtpEmail env to code =
     (case io_sendMail env to code of
        Throws \<Rightarrow> False
      | Returns rejected \<Rightarrow> rejected = [])"

section \<open>OTP request and verification\<close>

definition insert_otp :: "string \<Rightarrow> string \<Rightarrow> int \<Rightarrow> otp_row list \<Rightarrow> otp_row list" where
  "insert_otp email code expiresAt rows =
     rows @ [\<lparr>o_id = next_id (map o_id rows), o_email = email, o_code = code,
              o_expiresAt = expiresAt, o_consumed = 0\<rparr>]"

definition request_otp :: "config \<Rightarrow> io \<Rightarrow> world \<Rightarrow> string option \<Rightarrow> world \<times> reply" where
  "request_otp cfg env st email =
     (case email of
        None \<Rightarrow> (st, Inl (400, email_required))
      | Some e \<Rightarrow>
          if e = [] then (st, Inl (400, email_required))
          else if \<not> isValidEmailFormat e then (st, Inl (400, invalid_email_format))
          else if \<not> domainHasMX env e then (st, Inl (400, invalid_email_domain))
          else
            let code = generateOtp 6 (io_random env);
                expiresAt = io_now env + OTP_TTL cfg * 1000;
                st1 = st\<lparr>otps := insert_otp e code expiresAt (otps st)\<rparr>;
                st2 = st1\<lparr>outbox := outbox st1 @ [(e, code)]\<rparr>
            in if sendOtpEmail env e code then (st2, Inr otp_sent)
               else (st2, Inl (500, email_failed)))"

text \<open>\<^verbatim>\<open>SELECT * FROM otps WHERE email = ? AND consumed = 0 ORDER BY id DESC LIMIT 1\<close>\<close>

definition lookup_otp :: "world \<Rightarrow> string \<Rightarrow> otp_row option" where
  "lookup_otp st email =
     order_limit1 (\<lambda>a b. o_id a > o_id b)
       (filter (\<lambda>r. o_email r = email \<and> o_consumed r = 0) (otps st))"

text \<open>\<^verbatim>\<open>UPDATE otps SET consumed = 1 WHERE id = ?\<close>\<close>

definition consume_otp :: "nat \<Rightarrow> otp_row list \<Rightarrow> otp_row list" where
  "consume_otp i rows = map (\<lambda>r. if o_id r = i then r\<lparr>o_consumed := 1\<rparr> else r) rows"

text \<open>\<^verbatim>\<open>SELECT * FROM users WHERE email = ?\<close>\<close>

definition select_user :: "user_row list \<Rightarrow> string \<Rightarrow> user_row option" where
  "select_user rows email = find (\<lambda>u. u_email u = email) rows"

definition finalRole :: "jsval \<Rightarrow> string" where
  "finalRole role = (if role = JStr ''viewer'' then ''viewer'' else ''sharer'')"

text \<open>The branch \<^verbatim>\<open>if (!user) ... else ...\<close> of the handler, on the table of users.\<close>

definition upsert_user :: "string \<Rightarrow> string \<Rightarrow> user_row list \<Rightarrow> user_row list" where
  "upsert_user email role rows =
     (case select_user rows email of
        None \<Rightarrow>
          rows @ [\<lparr>u_id = next_id (map u_id rows), u_email = email, u_is_verified = 1,
                    u_role = role\<rparr>]
      | Some user \<Rightarrow>
          let rows1 = (if u_is_verified user = 0
                       then map (\<lambda>u. if u_email u = email then u\<lparr>u_is_verified := 1\<rparr> else u) rows
                       else rows);
              rows2 = (if u_role user = []
                       then map (\<lambda>u. if u_email u = email then u\<lparr>u_role := role\<rparr> else u) rows1
                       else rows1)
          in rows2)"

text \<open>The handler of \<^verbatim>\<open>POST /verify-otp\<close>. The last \<^verbatim>\<open>SELECT\<close> of the user finds a row; were
  it to find none, reading \<^verbatim>\<open>user.email\<close> would throw, which is \<open>internal_error\<close>.\<close>

definition verify_otp ::
  "config \<Rightarrow> io \<Rightarrow> world \<Rightarrow> string option \<Rightarrow> jsval \<Rightarrow> jsval \<Rightarrow> world \<times> reply" where
  "verify_otp cfg env st email otp role =
     (if falsy email \<or> \<not> truthy otp then (st, Inl (400, email_and_otp_required))
      else
        let e = (case email of Some s \<Rightarrow> s | None \<Rightarrow> []) in
        (case lookup_otp st e of
           None \<Rightarrow> (st, Inl (400, no_otp_requested))
         | Some record \<Rightarrow>
             if io_now env > o_expiresAt record then (st, Inl (400, otp_expired))
             else if otp \<noteq> JStr (o_code record) then (st, Inl (401, invalid_otp))
             else
               let st1 = st\<lparr>otps := consume_otp (o_id record) (otps st)\<rparr>;
                   st2 = st1\<lparr>users := upsert_user e (finalRole role) (users st1)\<rparr>
               in (case select_user (users st2) e of
                     None \<Rightarrow> (st2, Inl (500, internal_error))
                   | Some user \<Rightarrow>
                       (st2, Inr (verified (signToken cfg (io_now env) user) e (u_role user))))))"

section \<open>The JWT middleware\<close>

definition authMiddleware :: "config \<Rightarrow> io \<Rightarrow> string option \<Rightarrow> (nat \<times> err) + token_payload" where
  "authMiddleware cfg env authorization =
     (let auth = (case authorization of None \<Rightarrow> [] | Some a \<Rightarrow> a) in
      case nth_opt (js_split CHR '' '' auth) 1 of
        None \<Rightarrow> Inl (401, missing_token)
      | Some token \<Rightarrow>
          if token = [] then Inl (401, missing_token)
          else (case jwt_verify cfg token (io_now env) of
                  None \<Rightarrow> Inl (401, invalid_token)
                | Some payload \<Rightarrow> Inr payload))"

section \<open>Locations and permissions\<close>

definition insert_location ::
  "string \<Rightarrow> number \<Rightarrow> number \<Rightarrow> int \<Rightarrow> location_row list \<Rightarrow> location_row list" where
  "insert_location email lat lng secs rows =
     rows @ [\<lparr>l_id = next_id (map l_id rows), l_email = email, l_lat = lat, l_lng = lng,
              l_updatedAt = secs\<rparr>]"

text \<open>The handler of \<^verbatim>\<open>POST /locations\<close>; \<open>body\<close> is the whole JSON object of the request,
  \<open>JUndefined\<close> at the names it does not have.\<close>

definition post_location ::
  "config \<Rightarrow> io \<Rightarrow> world \<Rightarrow> string option \<Rightarrow> (string \<Rightarrow> jsval) \<Rightarrow> world \<times> reply" where
  "post_location cfg env st authorization body =
     (case authMiddleware cfg env authorization of
        Inl e \<Rightarrow> (st, Inl e)
      | Inr user \<Rightarrow>
          if t_role user \<noteq> ''sharer'' then (st, Inl (403, only_sharers_can_post))
          else (case (body ''lat'', body ''lng'') of
                  (JNum lat, JNum lng) \<Rightarrow>
                    (st\<lparr>locations :=
                          insert_location (t_email user) lat lng (io_now env div 1000)
                            (locations st)\<rparr>,
                     Inr location_saved)
                | _ \<Rightarrow> (st, Inl (400, lat_and_lng_required))))"

text \<open>\<^verbatim>\<open>SELECT 1 FROM permissions WHERE viewer_email = ? AND sharer_email = ? AND granted = 1\<close>\<close>

definition has_permission :: "world \<Rightarrow> string \<Rightarrow> string \<Rightarrow> bool" where
  "has_permission st viewer sharer =
     (find (\<lambda>p. p_viewer_email p = viewer \<and> p_sharer_email p = sharer \<and> p_granted p = 1)
        (permissions st) \<noteq> None)"

text \<open>\<^verbatim>\<open>SELECT ... FROM locations WHERE email = ? ORDER BY updatedAt DESC, id DESC LIMIT 1\<close>\<close>

definition latest_location :: "world \<Rightarrow> string \<Rightarrow> location_row option" where
  "latest_location st email =
     order_limit1
       (\<lambda>a b. l_updatedAt a > l_updatedAt b \<or> (l_updatedAt a = l_updatedAt b \<and> l_id a > l_id b))
       (filter (\<lambda>l. l_email l = email) (locations st))"

definition get_location ::
  "config \<Rightarrow> io \<Rightarrow> world \<Rightarrow> string option \<Rightarrow> string \<Rightarrow> world \<times> reply" where
  "get_location cfg env st authorization sharerEmail =
     (case authMiddleware cfg env authorization of
        Inl e \<Rightarrow> (st, Inl e)
      | Inr user \<Rightarrow>
          if t_role user \<noteq> ''viewer'' then (st, Inl (403, only_viewers_can_fetch))
          else if \<not> has_permission st (t_email user) sharerEmail
          then (st, Inl (403, no_permission))
          else (case latest_location st sharerEmail of
                  None \<Rightarrow> (st, Inl (404, no_location_found))
                | Some loc \<Rightarrow>
                    (st, Inr (location (l_email loc) (json_number (l_lat loc))
                                (json_number (l_lng loc)) (l_updatedAt loc)))))"

text \<open>\<^verbatim>\<open>INSERT INTO permissions ... ON CONFLICT(viewer_email, sharer_email) DO UPDATE SET granted = 1\<close>\<close>

definition upsert_permission :: "string \<Rightarrow> string \<Rightarrow> permission_row list \<Rightarrow> permission_row list" where
  "upsert_permission viewer sharer rows =
     (if \<exists>p \<in> set rows. p_viewer_email p = viewer \<and> p_sharer_email p = sharer
      then map (\<lambda>p. if p_viewer_email p = viewer \<and> p_sharer_email p = sharer
                     then p\<lparr>p_granted := 1\<rparr> else p) rows
      else rows @ [\<lparr>p_viewer_email = viewer, p_sharer_email = sharer, p_granted = 1\<rparr>])"

definition grant_permission ::
  "config \<Rightarrow> io \<Rightarrow> world \<Rightarrow> string option \<Rightarrow> string option \<Rightarrow> world \<times> reply" where
  "grant_permission cfg env st authorization viewerEmail =
     (case authMiddleware cfg env authorization of
        Inl e \<Rightarrow> (st, Inl e)
      | Inr user \<Rightarrow>
          if t_role user \<noteq> ''sharer'' then (st, Inl (403, only_sharers_can_grant))
          else (case viewerEmail of
                  None \<Rightarrow> (st, Inl (400, viewer_email_required))
                | Some v \<Rightarrow>
                    if v = [] then (st, Inl (400, viewer_email_required))
                    else (st\<lparr>permissions := upsert_permission v (t_email user) (permissions st)\<rparr>,
                          Inr permission_granted)))"

section \<open>The server\<close>

text \<open>A request, and a run of the server over a list of requests, each with what it sees
  of the outside.\<close>

datatype request =
    RequestOtp "string option"
  | VerifyOtp "string option" jsval jsval
  | PostLocation "string option" "string \<Rightarrow> jsval"
  | GetLocation "string option" string
  | GrantPermission "string option" "string option"

fun handle :: "config \<Rightarrow> io \<Rightarrow> world \<Rightarrow> request \<Rightarrow> world \<times> reply" where
  "handle cfg env st (RequestOtp email) = request_otp cfg env st email"
| "handle cfg env st (VerifyOtp email otp role) = verify_otp cfg env st email otp role"
| "handle cfg env st (PostLocation authorization body) = post_location cfg env st authorization body"
| "handle cfg env st (GetLocation authorization email) = get_location cfg env st authorization email"
| "handle cfg env st (GrantPermission authorization viewerEmail) =
     grant_permission cfg env st authorization viewerEmail"

fun run :: "config \<Rightarrow> world \<Rightarrow> (io \<times> request) list \<Rightarrow> world" where
  "run cfg st [] = st"
| "run cfg st ((env, rq) # evs) = run cfg (fst (handle cfg env st rq)) evs"

section \<open>Invariants of the database\<close>

text \<open>
  Properties of the state that every handler keeps: \<open>otps_wf\<close>, every OTP row has an
  email and a code that are not empty; \<open>spent i\<close>, the OTP rows with id \<open>i\<close> exist and are
  consumed; \<open>role_fixed e \<rho>\<close>, the email \<open>e\<close> has a user and its role is \<open>\<rho>\<close>;
  \<open>perm_unique\<close>, the constraint \<^verbatim>\<open>UNIQUE(viewer_email, sharer_email)\<close>.
\<close>

definition otps_wf :: "world \<Rightarrow> bool" where
  "otps_wf st = (\<forall>r \<in> set (otps st). o_email r \<noteq> [] \<and> o_code r \<noteq> [])"

definition spent :: "nat \<Rightarrow> world \<Rightarrow> bool" where
  "spent i st =
     ((\<exists>r \<in> set (otps st). o_id r = i) \<and> (\<forall>r \<in> set (otps st). o_id r = i \<longrightarrow> o_consumed r = 1))"

definition role_fixed :: "string \<Rightarrow> string \<Rightarrow> world \<Rightarrow> bool" where
  "role_fixed e \<rho> st =
     (\<rho> \<noteq> [] \<and> (\<exists>u \<in> set (users st). u_email u = e) \<and>
      (\<forall>u \<in> set (users st). u_email u = e \<longrightarrow> u_role u = \<rho>))"

definition perm_unique :: "world \<Rightarrow> bool" where
  "perm_unique st =
     distinct (map (\<lambda>p. (p_viewer_email p, p_sharer_email p)) (permissions st))"

section \<open>A configuration and an environment to run the server on\<close>

text \<open>
  A toy token format, \<^verbatim>\<open>role:email\<close>, stands for the signed token where a handler is
  evaluated on concrete requests; the theorems are about every configuration.
\<close>

definition demo_config :: config where
  "demo_config =
     \<lparr>OTP_TTL = 600,
      jwt_sign = (\<lambda>p t. t_role p @ '':'' @ t_email p),
      jwt_verify = (\<lambda>tok t. case js_split CHR '':'' tok of
                       [r, e] \<Rightarrow> Some \<lparr>t_sub = e, t_email = e, t_role = r\<rparr>
                     | _ \<Rightarrow> None)\<rparr>"

text \<open>At time \<open>t\<close>: every domain has one MX record, every random digit is \<open>x\<close>, and mail
  is accepted.\<close>

definition demo_io :: "int \<Rightarrow> nat \<Rightarrow> io" where
  "demo_io t x =
     \<lparr>io_now = t,
      io_resolveMx = (\<lambda>d. Returns [''mx.'' @ d]),
      io_random = (\<lambda>i. x),
      io_sendMail = (\<lambda>to code. Returns [])\<rparr>"

text \<open>The same with a resolver that fails.\<close>

definition demo_io_nomx :: "int \<Rightarrow> io" where
  "demo_io_nomx t = (demo_io t 0)\<lparr>io_resolveMx := (\<lambda>d. Throws)\<rparr>"

text \<open>A body of \<^verbatim>\<open>POST /locations\<close> that also has a field \<^verbatim>\<open>email\<close>.\<close>

definition demo_body :: "number \<Rightarrow> number \<Rightarrow> string \<Rightarrow> jsval" where
  "demo_body lat lng =
     (\<lambda>k. if k = ''lat'' then JNum lat else if k = ''lng'' then JNum lng
          else if k = ''email'' then JStr ''other@x.com'' else JUndefined)"

text \<open>The database after \<^verbatim>\<open>s@x.com\<close> posted one location, and after one OTP was issued
  to \<^verbatim>\<open>a@b.co\<close> (every digit drawn is 1: the code is \<^verbatim>\<open>111111\<close>).\<close>

definition demo_located :: world where
  "demo_located =
     run demo_config init_world
       [(demo_io 5000 0, PostLocation (Some ''Bearer sharer:s@x.com'') (demo_body (Finite 10) (Finite 20)))]"

definition demo_issued :: world where
  "demo_issued =
     run demo_config init_world [(demo_io 0 1, RequestOtp (Some ''a@b.co''))]"

text \<open>The database after the OTP issued to \<^verbatim>\<open>a@b.co\<close> was verified.\<close>

definition demo_verified :: world where
  "demo_verified =
     run demo_config init_world
       [(demo_io 0 1, RequestOtp (Some ''a@b.co'')),
        (demo_io 1000 0, VerifyOtp (Some ''a@b.co'') (JStr ''111111'') JUndefined)]"

text \<open>The database after \<^verbatim>\<open>a@b.co\<close> verified its first OTP with the role \<^verbatim>\<open>viewer\<close>.\<close>

definition demo_viewer_created :: world where
  "demo_viewer_created =
     run demo_config init_world
       [(demo_io 0 1, RequestOtp (Some ''a@b.co'')),
        (demo_io 1000 0, VerifyOtp (Some ''a@b.co'') (JStr ''111111'') (JStr ''viewer''))]"

text \<open>The database after \<^verbatim>\<open>s@x.com\<close> granted \<^verbatim>\<open>v@y.com\<close> the permission.\<close>

definition demo_granted :: world where
  "demo_granted =
     run demo_config init_world
       [(demo_io 0 0, GrantPermission (Some ''Bearer sharer:s@x.com'') (Some ''v@y.com''))]"

text \<open>The database after a grant and two locations posted within the same second.\<close>

definition demo_posted_twice :: world where
  "demo_posted_twice =
     run demo_config init_world
       [(demo_io 0 0, GrantPermission (Some ''Bearer sharer:s@x.com'') (Some ''v@y.com'')),
        (demo_io 5000 0, PostLocation (Some ''Bearer sharer:s@x.com'') (demo_body (Finite 10) (Finite 20))),
        (demo_io 5400 0, PostLocation (Some ''Bearer sharer:s@x.com'') (demo_body (Finite 11) (Finite 21)))]"

text \<open>A transport that throws, and the database after an issuance whose mail failed and a
  retry that drew another code.\<close>

definition demo_io_mailfails :: "int \<Rightarrow> nat \<Rightarrow> io" where
  "demo_io_mailfails t x = (demo_io t x)\<lparr>io_sendMail := (\<lambda>to code. Throws)\<rparr>"

definition demo_retried :: world where
  "demo_retried =
     run demo_config init_world
       [(demo_io_mailfails 0 1, RequestOtp (Some ''a@b.co'')),
        (demo_io 1000 2, RequestOtp (Some ''a@b.co''))]"

text \<open>The same two posts with the clock set back between them, and a second post whose
  latitude is the infinity that \<^verbatim>\<open>JSON.parse\<close> gives for \<^verbatim>\<open>1e400\<close>.\<close>

definition demo_clock_back :: world where
  "demo_clock_back =
     run demo_config init_world
       [(demo_io 0 0, GrantPermission (Some ''Bearer sharer:s@x.com'') (Some ''v@y.com'')),
        (demo_io 9000 0, PostLocation (Some ''Bearer sharer:s@x.com'')
           (demo_body (Finite 10) (Finite 20))),
        (demo_io 5000 0, PostLocation (Some ''Bearer sharer:s@x.com'')
           (demo_body (Finite 11) (Finite 21)))]"

definition demo_posted_infinity :: world where
  "demo_posted_infinity =
     run demo_config init_world
       [(demo_io 0 0, GrantPermission (Some ''Bearer sharer:s@x.com'') (Some ''v@y.com'')),
        (demo_io 5000 0, PostLocation (Some ''Bearer sharer:s@x.com'')
           (demo_body (Finite 10) (Finite 20))),
        (demo_io 7000 0, PostLocation (Some ''Bearer sharer:s@x.com'')
           (demo_body PosInfinity (Finite 21)))]"

text \<open>The database after an issuance whose mail failed and a retry that drew the same
  code.\<close>

definition demo_same_code :: world where
  "demo_same_code =
     run demo_config init_world
       [(demo_io_mailfails 0 1, RequestOtp (Some ''a@b.co'')),
        (demo_io 1000 1, RequestOtp (Some ''a@b.co''))]"

section \<open>Basic facts\<close>

lemma next_id_gt: "i \<in> set ids \<Longrightarrow> i < next_id ids"
  unfolding next_id_def by (induction ids) (auto simp: less_Suc_eq_le max_def)

lemma order_limit1_None: "order_limit1 before rs = None \<longleftrightarrow> rs = []"
  by (induction rs) (auto split: option.splits)

lemma order_limit1_mem: "order_limit1 before rs = Some x \<Longrightarrow> x \<in> set rs"
  by (induction rs arbitrary: x) (auto split: option.splits if_splits)

text \<open>A selected row that sorts strictly before every other selected row is the one
  returned.\<close>

lemma order_limit1_top:
  assumes "w \<in> set rs" and "\<forall>x \<in> set rs. x = w \<or> (before w x \<and> \<not> before x w)"
  shows "order_limit1 before rs = Some w"
  using assms
proof (induction rs)
  case Nil
  then show ?case by simp
next
  case (Cons r rs)
  show ?case
  proof (cases "order_limit1 before rs")
    case None
    then have "rs = []" by (simp add: order_limit1_None)
    with Cons.prems show ?thesis by simp
  next
    case (Some b)
    then have b: "b \<in> set rs" by (rule order_limit1_mem)
    show ?thesis
    proof (cases "w \<in> set rs")
      case True
      with Cons have "order_limit1 before rs = Some w" by simp
      with Some have "b = w" by simp
      with Cons.prems Some show ?thesis by auto
    next
      case False
      with Cons.prems have rw: "r = w" by simp
      from b False have "b \<noteq> w" by auto
      with Cons.prems b have "\<not> before b w" by auto
      with rw Some show ?thesis by simp
    qed
  qed
qed

lemma valid_email_nonempty: "isValidEmailFormat e \<Longrightarrow> e \<noteq> []"
  by (auto simp: isValidEmailFormat_def rx_test_def email_rx_def rx_plus_def)

lemma lookup_otp_SomeD:
  "lookup_otp st e = Some r \<Longrightarrow> r \<in> set (otps st) \<and> o_email r = e \<and> o_consumed r = 0"
  unfolding lookup_otp_def by (drule order_limit1_mem) simp

section \<open>Email validation before issuance\<close>

text \<open>
  Claim C7, as the handler has it. \<^verbatim>\<open>POST /request-otp\<close> answers \<open>email_required\<close> to an
  email that is absent or empty, \<open>invalid_email_format\<close> to every non-empty email that
  fails the shape check, and \<open>invalid_email_domain\<close> to every email of valid shape whose
  domain (\<^verbatim>\<open>email.split("@")[1]\<close>) has no MX record, the resolver returning none or
  failing. In each case the state returned is the state given: no OTP row is inserted
  and \<^verbatim>\<open>sendMail\<close> is not called.
\<close>

theorem request_otp_rejects:
  "(falsy email \<longrightarrow> request_otp cfg env st email = (st, Inl (400, email_required))) \<and>
   (e \<noteq> [] \<and> \<not> isValidEmailFormat e \<longrightarrow>
      request_otp cfg env st (Some e) = (st, Inl (400, invalid_email_format))) \<and>
   (isValidEmailFormat e \<and>
    (\<forall>d. nth_opt (js_split CHR ''@'' e) 1 = Some d \<longrightarrow>
           io_resolveMx env d = Throws \<or> io_resolveMx env d = Returns []) \<longrightarrow>
      request_otp cfg env st (Some e) = (st, Inl (400, invalid_email_domain)))"
proof (intro conjI impI)
  assume "falsy email"
  then show "request_otp cfg env st email = (st, Inl (400, email_required))"
    by (cases email) (simp_all add: request_otp_def)
next
  assume "e \<noteq> [] \<and> \<not> isValidEmailFormat e"
  then show "request_otp cfg env st (Some e) = (st, Inl (400, invalid_email_format))"
    by (simp add: request_otp_def)
next
  assume a: "isValidEmailFormat e \<and>
    (\<forall>d. nth_opt (js_split CHR ''@'' e) 1 = Some d \<longrightarrow>
           io_resolveMx env d = Throws \<or> io_resolveMx env d = Returns [])"
  then have ne: "e \<noteq> []" by (simp add: valid_email_nonempty)
  from a have "\<not> domainHasMX env e"
    by (auto simp: domainHasMX_def split: option.splits outcome.splits)
  with a ne show "request_otp cfg env st (Some e) = (st, Inl (400, invalid_email_domain))"
    by (simp add: request_otp_def)
qed

text \<open>The three rejections on a fresh database, with a resolver that fails.\<close>

theorem request_otp_rejects_witness:
  "request_otp demo_config (demo_io_nomx 0) init_world (Some ''abc'') =
     (init_world, Inl (400, invalid_email_format)) \<and>
   request_otp demo_config (demo_io_nomx 0) init_world (Some ''a@b.co'') =
     (init_world, Inl (400, invalid_email_domain)) \<and>
   request_otp demo_config (demo_io_nomx 0) init_world None =
     (init_world, Inl (400, email_required))"
proof -
  have h1: "''abc'' \<noteq> [] \<and> \<not> isValidEmailFormat ''abc''" by code_simp
  have h2: "isValidEmailFormat ''a@b.co''" by code_simp
  have h3: "\<forall>d. nth_opt (js_split CHR ''@'' ''a@b.co'') 1 = Some d \<longrightarrow>
           io_resolveMx (demo_io_nomx 0) d = Throws \<or> io_resolveMx (demo_io_nomx 0) d = Returns []"
    by (simp add: demo_io_nomx_def)
  show ?thesis
    using h1 h2 h3
      request_otp_rejects [of None demo_config "demo_io_nomx 0" init_world "''abc''"]
      request_otp_rejects [of None demo_config "demo_io_nomx 0" init_world "''a@b.co''"]
    by simp
qed

text \<open>The empty email fails the shape check, and the reply to it is \<open>email_required\<close>,
  not \<open>invalid_email_format\<close>: the guard \<^verbatim>\<open>if (!email)\<close> comes first.\<close>

theorem request_otp_empty_email_counterexample:
  "\<not> isValidEmailFormat [] \<and>
   request_otp demo_config (demo_io 0 0) init_world (Some []) =
     (init_world, Inl (400, email_required)) \<and>
   request_otp demo_config (demo_io 0 0) init_world (Some []) \<noteq>
     (init_world, Inl (400, invalid_email_format))"
  by (simp add: request_otp_def isValidEmailFormat_def rx_test_def email_rx_def rx_plus_def)

section \<open>What a successful verification does\<close>

lemma find_append_None:
  "find P xs = None \<Longrightarrow> find P (xs @ ys) = find P ys"
  by (induction xs) (auto split: if_splits)

lemma find_append_Some:
  "find P xs = Some x \<Longrightarrow> find P (xs @ ys) = Some x"
  by (induction xs) (auto split: if_splits)

lemma verify_otp_success:
  assumes "verify_otp cfg env st email otp role = (st1, Inr res)"
  shows "\<exists>e r u. email = Some e \<and> e \<noteq> [] \<and> lookup_otp st e = Some r \<and>
           io_now env \<le> o_expiresAt r \<and> otp = JStr (o_code r) \<and>
           st1 = st\<lparr>otps := consume_otp (o_id r) (otps st),
                    users := upsert_user e (finalRole role) (users st)\<rparr> \<and>
           select_user (users st1) e = Some u \<and>
           res = verified (signToken cfg (io_now env) u) e (u_role u)"
proof (cases email)
  case None
  with assms show ?thesis by (simp add: verify_otp_def)
next
  case (Some e)
  with assms show ?thesis
    by (auto simp: verify_otp_def Let_def split: if_splits option.splits)
qed

lemma verify_otp_successE:
  assumes "verify_otp cfg env st email otp role = (st1, Inr res)"
  obtains e r u where "email = Some e" and "e \<noteq> []" and "lookup_otp st e = Some r"
    and "io_now env \<le> o_expiresAt r" and "otp = JStr (o_code r)"
    and "st1 = st\<lparr>otps := consume_otp (o_id r) (otps st),
                    users := upsert_user e (finalRole role) (users st)\<rparr>"
    and "select_user (users st1) e = Some u"
    and "res = verified (signToken cfg (io_now env) u) e (u_role u)"
  using verify_otp_success [OF assms] by (elim exE conjE) (rule that)

section \<open>The role given at the first verification\<close>

text \<open>
  Claim C10. When \<^verbatim>\<open>POST /verify-otp\<close> succeeds for an email that has no row in
  \<^verbatim>\<open>users\<close>, it inserts one row for that email, verified, whose role is \<^verbatim>\<open>viewer\<close> if
  the field \<^verbatim>\<open>role\<close> of the body is exactly the string \<^verbatim>\<open>viewer\<close> and \<^verbatim>\<open>sharer\<close> for
  every other value of the field, \<^verbatim>\<open>undefined\<close> (no field) included; the token and the
  user of the reply carry that role.
\<close>

theorem first_verification_role:
  assumes "verify_otp cfg env st (Some e) otp role = (st1, Inr res)"
    and "select_user (users st) e = None"
  shows "users st1 = users st @
           [\<lparr>u_id = next_id (map u_id (users st)), u_email = e, u_is_verified = 1,
             u_role = (if role = JStr ''viewer'' then ''viewer'' else ''sharer'')\<rparr>] \<and>
         res = verified
                 (jwt_sign cfg
                    \<lparr>t_sub = e, t_email = e,
                     t_role = (if role = JStr ''viewer'' then ''viewer'' else ''sharer'')\<rparr>
                    (io_now env))
                 e (if role = JStr ''viewer'' then ''viewer'' else ''sharer'')"
  using assms(1)
proof (rule verify_otp_successE)
  fix e' r u
  let ?u = "\<lparr>u_id = next_id (map u_id (users st)), u_email = e, u_is_verified = 1,
             u_role = finalRole role\<rparr>"
  assume e': "Some e = Some e'"
    and st1: "st1 = st\<lparr>otps := consume_otp (o_id r) (otps st),
                    users := upsert_user e' (finalRole role) (users st)\<rparr>"
    and u: "select_user (users st1) e' = Some u"
    and res: "res = verified (signToken cfg (io_now env) u) e' (u_role u)"
  from e' have ee: "e' = e" by simp
  from assms(2) st1 ee have us: "users st1 = users st @ [?u]"
    by (simp add: upsert_user_def)
  with assms(2) u ee have uu: "u = ?u"
    by (simp add: select_user_def find_append_None)
  from us uu res ee show ?thesis
    by (simp add: finalRole_def signToken_def)
qed

text \<open>The first verification of \<^verbatim>\<open>a@b.co\<close> with no role, and with the role \<^verbatim>\<open>viewer\<close>.\<close>

theorem first_verification_role_witness:
  "users (fst (verify_otp demo_config (demo_io 1000 0) demo_issued (Some ''a@b.co'')
      (JStr ''111111'') JUndefined)) =
     [\<lparr>u_id = 1, u_email = ''a@b.co'', u_is_verified = 1, u_role = ''sharer''\<rparr>] \<and>
   users (fst (verify_otp demo_config (demo_io 1000 0) demo_issued (Some ''a@b.co'')
      (JStr ''111111'') (JStr ''viewer''))) =
     [\<lparr>u_id = 1, u_email = ''a@b.co'', u_is_verified = 1, u_role = ''viewer''\<rparr>]"
proof -
  let ?v1 = "verify_otp demo_config (demo_io 1000 0) demo_issued (Some ''a@b.co'')
      (JStr ''111111'') JUndefined"
  let ?v2 = "verify_otp demo_config (demo_io 1000 0) demo_issued (Some ''a@b.co'')
      (JStr ''111111'') (JStr ''viewer'')"
  have a1: "?v1 = (fst ?v1, Inr (verified ''sharer:a@b.co'' ''a@b.co'' ''sharer''))"
    by (simp add: prod_eq_iff, code_simp)
  have a2: "?v2 = (fst ?v2, Inr (verified ''viewer:a@b.co'' ''a@b.co'' ''viewer''))"
    by (simp add: prod_eq_iff, code_simp)
  have n: "select_user (users demo_issued) ''a@b.co'' = None" by code_simp
  have u: "users demo_issued = []" by code_simp
  from first_verification_role [OF a1 n] first_verification_role [OF a2 n] u
  show ?thesis by (simp add: next_id_def)
qed

section \<open>Reading and writing locations\<close>

text \<open>
  Claim C4. For every request to \<^verbatim>\<open>GET /locations/:email\<close> whose token verifies with
  the role \<^verbatim>\<open>viewer\<close>, if \<^verbatim>\<open>permissions\<close> has no row with \<^verbatim>\<open>granted = 1\<close> from the
  token's email to the sharer's email, the reply is 403 \<open>no_permission\<close>: an error, with
  no location in it, whatever \<^verbatim>\<open>locations\<close> holds for the sharer.
\<close>

theorem get_location_no_permission:
  assumes "authMiddleware cfg env authorization = Inr user"
    and "t_role user = ''viewer''"
    and "\<not> (\<exists>p \<in> set (permissions st). p_viewer_email p = t_email user \<and>
              p_sharer_email p = sharerEmail \<and> p_granted p = 1)"
  shows "get_location cfg env st authorization sharerEmail = (st, Inl (403, no_permission))"
proof -
  from assms(3) have "\<not> has_permission st (t_email user) sharerEmail"
    by (auto simp: has_permission_def find_None_iff)
  with assms(1,2) show ?thesis by (simp add: get_location_def)
qed

text \<open>A viewer without a grant asks for a sharer who has a location.\<close>

theorem get_location_no_permission_witness:
  "get_location demo_config (demo_io 6000 0) demo_located (Some ''Bearer viewer:v@y.com'') ''s@x.com'' =
     (demo_located, Inl (403, no_permission)) \<and>
   latest_location demo_located ''s@x.com'' =
     Some \<lparr>l_id = 1, l_email = ''s@x.com'', l_lat = Finite 10, l_lng = Finite 20, l_updatedAt = 5\<rparr>"
proof -
  let ?v = "\<lparr>t_sub = ''v@y.com'', t_email = ''v@y.com'', t_role = ''viewer''\<rparr>"
  have h1: "authMiddleware demo_config (demo_io 6000 0) (Some ''Bearer viewer:v@y.com'') = Inr ?v"
    by code_simp
  have h2: "t_role ?v = ''viewer''" by simp
  have h3: "\<not> (\<exists>p \<in> set (permissions demo_located). p_viewer_email p = t_email ?v \<and>
              p_sharer_email p = ''s@x.com'' \<and> p_granted p = 1)"
    by code_simp
  have h4: "latest_location demo_located ''s@x.com'' =
     Some \<lparr>l_id = 1, l_email = ''s@x.com'', l_lat = Finite 10, l_lng = Finite 20, l_updatedAt = 5\<rparr>"
    by code_simp
  from get_location_no_permission [OF h1 h2 h3] h4 show ?thesis by simp
qed

text \<open>
  Claim C9. For every request to \<^verbatim>\<open>POST /locations\<close> whose token verifies with the role
  \<^verbatim>\<open>sharer\<close>: if \<^verbatim>\<open>lat\<close> and \<^verbatim>\<open>lng\<close> of the body are numbers, one row is appended to
  \<^verbatim>\<open>locations\<close> and its email is the email of the token; and for every body whatever,
  \<^verbatim>\<open>locations\<close> is unchanged or extended by one row stored under the token's email.
\<close>

theorem post_location_email:
  assumes "authMiddleware cfg env authorization = Inr user"
    and "t_role user = ''sharer''"
  shows "(body ''lat'' = JNum lat \<and> body ''lng'' = JNum lng \<longrightarrow>
            post_location cfg env st authorization body =
              (st\<lparr>locations := locations st @
                    [\<lparr>l_id = next_id (map l_id (locations st)), l_email = t_email user,
                      l_lat = lat, l_lng = lng, l_updatedAt = io_now env div 1000\<rparr>]\<rparr>,
               Inr location_saved)) \<and>
         (locations (fst (post_location cfg env st authorization body)) = locations st \<or>
          (\<exists>r. locations (fst (post_location cfg env st authorization body)) = locations st @ [r] \<and>
                l_email r = t_email user))"
  using assms
  by (auto simp: post_location_def insert_location_def split: jsval.splits)

text \<open>A body with \<^verbatim>\<open>email: "other@x.com"\<close> beside the coordinates: the row is stored under
  the email of the token.\<close>

theorem post_location_email_witness:
  "demo_body (Finite 10) (Finite 20) ''email'' = JStr ''other@x.com'' \<and>
   post_location demo_config (demo_io 5000 0) init_world (Some ''Bearer sharer:s@x.com'')
       (demo_body (Finite 10) (Finite 20)) =
     (init_world\<lparr>locations :=
        [\<lparr>l_id = 1, l_email = ''s@x.com'', l_lat = Finite 10, l_lng = Finite 20, l_updatedAt = 5\<rparr>]\<rparr>,
      Inr location_saved)"
proof -
  let ?s = "\<lparr>t_sub = ''s@x.com'', t_email = ''s@x.com'', t_role = ''sharer''\<rparr>"
  have h1: "authMiddleware demo_config (demo_io 5000 0) (Some ''Bearer sharer:s@x.com'') = Inr ?s"
    by code_simp
  have h2: "t_role ?s = ''sharer''" by simp
  have h3: "demo_body (Finite 10) (Finite 20) ''lat'' = JNum (Finite 10) \<and> demo_body (Finite 10) (Finite 20) ''lng'' = JNum (Finite 20)"
    by (simp add: demo_body_def)
  from post_location_email [OF h1 h2, of "demo_body (Finite 10) (Finite 20)" "Finite 10" "Finite 20" init_world] h3
  show ?thesis by (simp add: demo_body_def demo_io_def init_world_def next_id_def)
qed

section \<open>The effect of each handler on the state\<close>

lemma request_otp_cases:
  "fst (request_otp cfg env st email) = st \<or>
   (\<exists>e. email = Some e \<and> isValidEmailFormat e \<and>
        fst (request_otp cfg env st email) =
          st\<lparr>otps := insert_otp e (generateOtp 6 (io_random env))
                        (io_now env + OTP_TTL cfg * 1000) (otps st),
              outbox := outbox st @ [(e, generateOtp 6 (io_random env))]\<rparr>)"
  by (cases email) (simp_all add: request_otp_def Let_def)

lemma verify_otp_cases:
  "fst (verify_otp cfg env st email otp role) = st \<or>
   (\<exists>e r. email = Some e \<and> lookup_otp st e = Some r \<and>
        fst (verify_otp cfg env st email otp role) =
          st\<lparr>otps := consume_otp (o_id r) (otps st),
              users := upsert_user e (finalRole role) (users st)\<rparr>)"
  by (cases email) (auto simp: verify_otp_def Let_def split: option.splits)

lemma post_location_cases:
  "fst (post_location cfg env st authorization body) = st \<or>
   (\<exists>user lat lng. authMiddleware cfg env authorization = Inr user \<and>
        fst (post_location cfg env st authorization body) =
          st\<lparr>locations := insert_location (t_email user) lat lng (io_now env div 1000)
                             (locations st)\<rparr>)"
  by (auto simp: post_location_def split: sum.splits jsval.splits)

lemma get_location_state: "fst (get_location cfg env st authorization email) = st"
  by (simp add: get_location_def split: sum.splits option.splits)

lemma grant_permission_cases:
  "fst (grant_permission cfg env st authorization viewerEmail) = st \<or>
   (\<exists>user v. authMiddleware cfg env authorization = Inr user \<and> viewerEmail = Some v \<and>
        fst (grant_permission cfg env st authorization viewerEmail) =
          st\<lparr>permissions := upsert_permission v (t_email user) (permissions st)\<rparr>)"
  by (auto simp: grant_permission_def split: sum.splits option.splits)

lemma run_invariant:
  assumes "\<And>env st rq. (env, rq) \<in> set evs \<Longrightarrow> P st \<Longrightarrow> P (fst (handle cfg env st rq))"
    and "P st"
  shows "P (run cfg st evs)"
  using assms by (induction evs arbitrary: st) auto

lemma run_append: "run cfg st (evs @ evs') = run cfg (run cfg st evs) evs'"
  by (induction evs arbitrary: st) auto

lemma show_nat_nonempty: "show_nat n \<noteq> []"
  by (subst show_nat.simps) simp

lemma generateOtp_nonempty: "generateOtp 6 rnd \<noteq> []"
proof -
  have "[0..<6] = 0 # [1..<6]" by (simp add: upt_rec)
  then show ?thesis
    unfolding generateOtp_def by (simp add: show_nat_nonempty)
qed

lemma empty_email_invalid: "\<not> isValidEmailFormat []"
  using valid_email_nonempty by blast

lemma consume_otp_set:
  "r \<in> set (consume_otp i rows) \<Longrightarrow>
     \<exists>q \<in> set rows. o_id r = o_id q \<and> o_email r = o_email q \<and> o_code r = o_code q \<and>
        o_expiresAt r = o_expiresAt q \<and>
        (if o_id q = i then o_consumed r = 1 else o_consumed r = o_consumed q)"
  by (auto simp: consume_otp_def)

lemma consume_otp_ids: "map o_id (consume_otp i rows) = map o_id rows"
  by (simp add: consume_otp_def)

lemma handle_otps_wf:
  assumes "otps_wf st"
  shows "otps_wf (fst (handle cfg env st rq))"
proof (cases rq)
  case (RequestOtp email)
  from request_otp_cases [of cfg env st email] assms show ?thesis
    unfolding RequestOtp
    by (auto simp: otps_wf_def insert_otp_def generateOtp_nonempty empty_email_invalid)
next
  case (VerifyOtp email otp role)
  from verify_otp_cases [of cfg env st email otp role] assms show ?thesis
    unfolding VerifyOtp
    by (auto simp: otps_wf_def dest!: consume_otp_set)
next
  case (PostLocation a b)
  from post_location_cases [of cfg env st a b] assms show ?thesis
    unfolding PostLocation by (auto simp: otps_wf_def)
next
  case (GetLocation a b)
  with assms show ?thesis by (simp add: get_location_state)
next
  case (GrantPermission a b)
  from grant_permission_cases [of cfg env st a b] assms show ?thesis
    unfolding GrantPermission by (auto simp: otps_wf_def)
qed

lemma run_otps_wf: "otps_wf (run cfg init_world evs)"
  by (rule run_invariant) (simp_all add: handle_otps_wf, simp add: otps_wf_def init_world_def)

lemma handle_spent:
  assumes "spent i st"
  shows "spent i (fst (handle cfg env st rq))"
proof (cases rq)
  case (RequestOtp email)
  from assms obtain q where q: "q \<in> set (otps st)" "o_id q = i" by (auto simp: spent_def)
  then have "i < next_id (map o_id (otps st))" by (auto intro!: next_id_gt)
  with request_otp_cases [of cfg env st email] assms show ?thesis
    unfolding RequestOtp
    by (auto simp: spent_def insert_otp_def)
next
  case (VerifyOtp email otp role)
  have "spent i (st\<lparr>otps := consume_otp j (otps st), users := us\<rparr>)" for j us
  proof -
    from assms have "i \<in> set (map o_id (otps st))" by (auto simp: spent_def)
    then have "i \<in> set (map o_id (consume_otp j (otps st)))" by (simp only: consume_otp_ids)
    moreover from assms have "\<forall>r \<in> set (consume_otp j (otps st)). o_id r = i \<longrightarrow> o_consumed r = 1"
      by (auto simp: spent_def dest!: consume_otp_set split: if_splits)
    ultimately show ?thesis by (auto simp: spent_def)
  qed
  with verify_otp_cases [of cfg env st email otp role] assms show ?thesis
    unfolding VerifyOtp by auto
next
  case (PostLocation a b)
  from post_location_cases [of cfg env st a b] assms show ?thesis
    unfolding PostLocation by (auto simp: spent_def)
next
  case (GetLocation a b)
  with assms show ?thesis by (simp add: get_location_state)
next
  case (GrantPermission a b)
  from grant_permission_cases [of cfg env st a b] assms show ?thesis
    unfolding GrantPermission by (auto simp: spent_def)
qed

lemma run_spent: "spent i st \<Longrightarrow> spent i (run cfg st evs)"
  by (rule run_invariant) (simp_all add: handle_spent)

lemma spent_not_lookup: "spent i st \<Longrightarrow> lookup_otp st e = Some q \<Longrightarrow> o_id q \<noteq> i"
  by (auto simp: spent_def dest!: lookup_otp_SomeD)

lemma consume_otp_spent:
  assumes "r \<in> set (otps st)"
  shows "spent (o_id r) (st\<lparr>otps := consume_otp (o_id r) (otps st), users := us\<rparr>)"
proof -
  from assms have "o_id r \<in> set (map o_id (otps st))" by auto
  then have "o_id r \<in> set (map o_id (consume_otp (o_id r) (otps st)))"
    by (simp only: consume_otp_ids)
  moreover have "\<forall>q \<in> set (consume_otp (o_id r) (otps st)). o_id q = o_id r \<longrightarrow> o_consumed q = 1"
    by (auto dest!: consume_otp_set split: if_splits)
  ultimately show ?thesis by (auto simp: spent_def)
qed

lemma verify_otp_expired:
  assumes "lookup_otp st e = Some r" and "o_expiresAt r < io_now env"
    and "e \<noteq> []" and "truthy otp"
  shows "verify_otp cfg env st (Some e) otp role = (st, Inl (400, otp_expired))"
  using assms by (simp add: verify_otp_def)

section \<open>Expiry\<close>

text \<open>
  Claim C8. In every state the server reaches from an empty database: if the newest
  unconsumed OTP row of an email expired before the current time, \<^verbatim>\<open>POST /verify-otp\<close>
  for that email answers 400 \<open>otp_expired\<close> to the code stored in the row, and to every
  other code supplied, and returns the state as it was: the row is not consumed.
\<close>

theorem expired_otp_rejected:
  assumes "lookup_otp (run cfg init_world evs) e = Some r"
    and "o_expiresAt r < io_now env"
  shows "verify_otp cfg env (run cfg init_world evs) (Some e) (JStr (o_code r)) role =
           (run cfg init_world evs, Inl (400, otp_expired)) \<and>
         (\<forall>otp. truthy otp \<longrightarrow>
            verify_otp cfg env (run cfg init_world evs) (Some e) otp role =
              (run cfg init_world evs, Inl (400, otp_expired)))"
proof -
  from assms(1) have "r \<in> set (otps (run cfg init_world evs))" and "o_email r = e"
    by (auto dest: lookup_otp_SomeD)
  with run_otps_wf [of cfg evs] have "e \<noteq> []" and "o_code r \<noteq> []"
    by (auto simp: otps_wf_def)
  with assms show ?thesis by (simp add: verify_otp_expired)
qed

text \<open>An OTP issued at time 0 with the default lifetime, verified with its own code one
  millisecond after it expired.\<close>

theorem expired_otp_rejected_witness:
  "demo_issued = run demo_config init_world [(demo_io 0 1, RequestOtp (Some ''a@b.co''))] \<and>
   lookup_otp demo_issued ''a@b.co'' =
     Some \<lparr>o_id = 1, o_email = ''a@b.co'', o_code = ''111111'', o_expiresAt = 600000,
           o_consumed = 0\<rparr> \<and>
   verify_otp demo_config (demo_io 600001 0) demo_issued (Some ''a@b.co'') (JStr ''111111'')
       JUndefined =
     (demo_issued, Inl (400, otp_expired))"
proof -
  let ?r = "\<lparr>o_id = 1, o_email = ''a@b.co'', o_code = ''111111'', o_expiresAt = 600000,
           o_consumed = 0\<rparr>"
  let ?evs = "[(demo_io 0 1, RequestOtp (Some ''a@b.co''))]"
  have d: "demo_issued = run demo_config init_world ?evs" by (simp only: demo_issued_def)
  have h1: "lookup_otp demo_issued ''a@b.co'' = Some ?r" by code_simp
  have h2: "o_expiresAt ?r < io_now (demo_io 600001 0)" by (simp add: demo_io_def)
  from expired_otp_rejected [of demo_config ?evs "''a@b.co''" ?r "demo_io 600001 0" JUndefined]
    h1 h2 d
  show ?thesis by simp
qed

section \<open>Single use\<close>

text \<open>
  Claim C1. When \<^verbatim>\<open>POST /verify-otp\<close> succeeds, it does so on the row \<open>r\<close> that the lookup
  returned for the email, and in the new state every row with the id of \<open>r\<close> has
  \<^verbatim>\<open>consumed = 1\<close>. After any further requests no lookup, for any email, returns a row
  with that id again, so every later verification that succeeds does so on another
  row; and if no unconsumed row is left for the email, verifying again with the same
  code answers 400 \<open>no_otp_requested\<close>.
\<close>

theorem otp_single_use:
  assumes "verify_otp cfg env st email otp role = (st1, Inr res)"
  shows "\<exists>e r. email = Some e \<and> lookup_otp st e = Some r \<and>
      (\<forall>q \<in> set (otps st1). o_id q = o_id r \<longrightarrow> o_consumed q = 1) \<and>
      (\<forall>evs e2 q. lookup_otp (run cfg st1 evs) e2 = Some q \<longrightarrow> o_id q \<noteq> o_id r) \<and>
      (\<forall>evs env2 email2 otp2 role2 st2 res2.
          verify_otp cfg env2 (run cfg st1 evs) email2 otp2 role2 = (st2, Inr res2) \<longrightarrow>
          (\<exists>e2 q. email2 = Some e2 \<and> lookup_otp (run cfg st1 evs) e2 = Some q \<and>
                   o_id q \<noteq> o_id r)) \<and>
      (\<forall>env2 role2. lookup_otp st1 e = None \<longrightarrow>
          verify_otp cfg env2 st1 email otp role2 = (st1, Inl (400, no_otp_requested)))"
  using assms
proof (rule verify_otp_successE)
  fix e r u
  assume email: "email = Some e" and ne: "e \<noteq> []" and look: "lookup_otp st e = Some r"
    and otp: "otp = JStr (o_code r)"
    and st1: "st1 = st\<lparr>otps := consume_otp (o_id r) (otps st),
                    users := upsert_user e (finalRole role) (users st)\<rparr>"
  from look have "r \<in> set (otps st)" by (auto dest: lookup_otp_SomeD)
  with st1 have sp: "spent (o_id r) st1" by (simp add: consume_otp_spent)
  then have c1: "\<forall>q \<in> set (otps st1). o_id q = o_id r \<longrightarrow> o_consumed q = 1"
    by (simp add: spent_def)
  have c2: "\<forall>evs e2 q. lookup_otp (run cfg st1 evs) e2 = Some q \<longrightarrow> o_id q \<noteq> o_id r"
    using sp by (blast dest: run_spent spent_not_lookup)
  have c3: "\<forall>evs env2 email2 otp2 role2 st2 res2.
          verify_otp cfg env2 (run cfg st1 evs) email2 otp2 role2 = (st2, Inr res2) \<longrightarrow>
          (\<exists>e2 q. email2 = Some e2 \<and> lookup_otp (run cfg st1 evs) e2 = Some q \<and>
                   o_id q \<noteq> o_id r)"
  proof (intro allI impI)
    fix evs env2 email2 otp2 role2 st2 res2
    assume "verify_otp cfg env2 (run cfg st1 evs) email2 otp2 role2 = (st2, Inr res2)"
    then obtain e2 q where "email2 = Some e2" and q: "lookup_otp (run cfg st1 evs) e2 = Some q"
      by (rule verify_otp_successE)
    moreover from c2 q have "o_id q \<noteq> o_id r" by blast
    ultimately show "\<exists>e2 q. email2 = Some e2 \<and> lookup_otp (run cfg st1 evs) e2 = Some q \<and>
                   o_id q \<noteq> o_id r"
      by blast
  qed
  have c4: "\<forall>env2 role2. lookup_otp st1 e = None \<longrightarrow>
          verify_otp cfg env2 st1 email otp role2 = (st1, Inl (400, no_otp_requested))"
    using assms email ne by (auto simp: verify_otp_def split: if_splits)
  from email look c1 c2 c3 c4 show ?thesis by blast
qed

text \<open>The code of the only OTP of \<^verbatim>\<open>a@b.co\<close> is accepted once and then refused.\<close>

theorem otp_single_use_witness:
  "verify_otp demo_config (demo_io 1000 0) demo_issued (Some ''a@b.co'') (JStr ''111111'')
       JUndefined =
     (demo_verified, Inr (verified ''sharer:a@b.co'' ''a@b.co'' ''sharer'')) \<and>
   otps demo_verified =
     [\<lparr>o_id = 1, o_email = ''a@b.co'', o_code = ''111111'', o_expiresAt = 600000,
       o_consumed = 1\<rparr>] \<and>
   verify_otp demo_config (demo_io 2000 0) demo_verified (Some ''a@b.co'') (JStr ''111111'')
       JUndefined =
     (demo_verified, Inl (400, no_otp_requested))"
proof -
  have a: "verify_otp demo_config (demo_io 1000 0) demo_issued (Some ''a@b.co'')
        (JStr ''111111'') JUndefined =
      (demo_verified, Inr (verified ''sharer:a@b.co'' ''a@b.co'' ''sharer''))"
    by (simp add: prod_eq_iff demo_verified_def demo_issued_def, code_simp)
  have b: "otps demo_verified =
     [\<lparr>o_id = 1, o_email = ''a@b.co'', o_code = ''111111'', o_expiresAt = 600000,
       o_consumed = 1\<rparr>]"
    by code_simp
  have n: "lookup_otp demo_verified ''a@b.co'' = None" by code_simp
  from otp_single_use [OF a] obtain e where "Some ''a@b.co'' = Some e"
    and "\<forall>env2 role2. lookup_otp demo_verified e = None \<longrightarrow>
          verify_otp demo_config env2 demo_verified (Some ''a@b.co'') (JStr ''111111'') role2 =
            (demo_verified, Inl (400, no_otp_requested))"
    by blast
  with n have "verify_otp demo_config (demo_io 2000 0) demo_verified (Some ''a@b.co'')
       (JStr ''111111'') JUndefined = (demo_verified, Inl (400, no_otp_requested))"
    by simp
  with a b show ?thesis by simp
qed

section \<open>The role is fixed at creation\<close>

lemma finalRole_nonempty: "finalRole role \<noteq> []"
  by (simp add: finalRole_def)

lemma upsert_user_None:
  "select_user rows e' = None \<Longrightarrow>
     upsert_user e' role' rows =
       rows @ [\<lparr>u_id = next_id (map u_id rows), u_email = e', u_is_verified = 1, u_role = role'\<rparr>]"
  by (simp add: upsert_user_def)

lemma upsert_user_Some:
  assumes "select_user rows e' = Some user"
  shows "upsert_user e' role' rows =
       map (\<lambda>u. if u_email u = e'
                then u\<lparr>u_is_verified := (if u_is_verified user = 0 then 1 else u_is_verified u),
                       u_role := (if u_role user = [] then role' else u_role u)\<rparr>
                else u) rows"
proof -
  have "map (\<lambda>u. if u_email u = e'
                then u\<lparr>u_is_verified := (if u_is_verified user = 0 then 1 else u_is_verified u),
                       u_role := (if u_role user = [] then role' else u_role u)\<rparr>
                else u) rows =
        (let rows1 = (if u_is_verified user = 0
                       then map (\<lambda>u. if u_email u = e' then u\<lparr>u_is_verified := 1\<rparr> else u) rows
                       else rows);
              rows2 = (if u_role user = []
                       then map (\<lambda>u. if u_email u = e' then u\<lparr>u_role := role'\<rparr> else u) rows1
                       else rows1)
          in rows2)"
    by (induction rows) (simp_all add: Let_def)
  with assms show ?thesis by (simp add: upsert_user_def)
qed

lemma upsert_user_role_fixed:
  assumes "\<rho> \<noteq> []"
    and "\<exists>u \<in> set rows. u_email u = e"
    and "\<forall>u \<in> set rows. u_email u = e \<longrightarrow> u_role u = \<rho>"
  shows "(\<exists>u \<in> set (upsert_user e' role' rows). u_email u = e) \<and>
         (\<forall>u \<in> set (upsert_user e' role' rows). u_email u = e \<longrightarrow> u_role u = \<rho>)"
proof (cases "select_user rows e'")
  case None
  then have "\<forall>u \<in> set rows. u_email u \<noteq> e'"
    by (auto simp: select_user_def find_None_iff)
  with assms(2) have "e' \<noteq> e" by auto
  with assms show ?thesis by (auto simp: upsert_user_None [OF None])
next
  case (Some user)
  then have user: "user \<in> set rows" "u_email user = e'"
    by (auto simp: select_user_def find_Some_iff)
  let ?g = "\<lambda>u. if u_email u = e'
                then u\<lparr>u_is_verified := (if u_is_verified user = 0 then 1 else u_is_verified u),
                       u_role := (if u_role user = [] then role' else u_role u)\<rparr>
                else u"
  have up: "upsert_user e' role' rows = map ?g rows" by (rule upsert_user_Some [OF Some])
  have em: "u_email (?g u) = u_email u" for u by simp
  have ro: "u_role (?g u) = \<rho>" if "u \<in> set rows" "u_email u = e" for u
  proof (cases "e' = e")
    case True
    with user assms(3) have "u_role user = \<rho>" by simp
    with assms(1) that assms(3) show ?thesis by simp
  next
    case False
    with that assms(3) show ?thesis by simp
  qed
  from assms(2) obtain u0 where u0: "u0 \<in> set rows" "u_email u0 = e" by blast
  then have "?g u0 \<in> set (map ?g rows)" by simp
  with em [of u0] u0 have ex: "\<exists>u \<in> set (map ?g rows). u_email u = e" by blast
  have "u_role w = \<rho>" if w: "w \<in> set (map ?g rows)" "u_email w = e" for w
  proof -
    from w(1) obtain u where u: "u \<in> set rows" "w = ?g u" by auto
    with w(2) em [of u] have "u_email u = e" by simp
    with u ro show ?thesis by simp
  qed
  with ex show ?thesis unfolding up by blast
qed

lemma handle_role_fixed:
  assumes "role_fixed e \<rho> st"
  shows "role_fixed e \<rho> (fst (handle cfg env st rq))"
proof (cases rq)
  case (RequestOtp email)
  from request_otp_cases [of cfg env st email] assms show ?thesis
    unfolding RequestOtp by (auto simp: role_fixed_def)
next
  case (VerifyOtp email otp role)
  have "role_fixed e \<rho> (st\<lparr>otps := os, users := upsert_user e' role' (users st)\<rparr>)" for os e' role'
    using assms upsert_user_role_fixed [of \<rho> "users st" e e' role']
    by (simp add: role_fixed_def)
  with verify_otp_cases [of cfg env st email otp role] assms show ?thesis
    unfolding VerifyOtp by auto
next
  case (PostLocation a b)
  from post_location_cases [of cfg env st a b] assms show ?thesis
    unfolding PostLocation by (auto simp: role_fixed_def)
next
  case (GetLocation a b)
  with assms show ?thesis by (simp add: get_location_state)
next
  case (GrantPermission a b)
  from grant_permission_cases [of cfg env st a b] assms show ?thesis
    unfolding GrantPermission by (auto simp: role_fixed_def)
qed

lemma run_role_fixed: "role_fixed e \<rho> st \<Longrightarrow> role_fixed e \<rho> (run cfg st evs)"
  by (rule run_invariant) (simp_all add: handle_role_fixed)

lemma verify_otp_role_of_user:
  assumes "verify_otp cfg env st (Some e) otp role = (st1, Inr res)"
    and "role_fixed e \<rho> st"
  shows "role_fixed e \<rho> st1 \<and>
         (\<exists>u. select_user (users st1) e = Some u \<and> u_role u = \<rho>) \<and>
         res = verified (jwt_sign cfg \<lparr>t_sub = e, t_email = e, t_role = \<rho>\<rparr> (io_now env)) e \<rho>"
  using assms(1)
proof (rule verify_otp_successE)
  fix e' r u
  assume e': "Some e = Some e'"
    and u: "select_user (users st1) e' = Some u"
    and res: "res = verified (signToken cfg (io_now env) u) e' (u_role u)"
  from e' have ee: "e' = e" by simp
  from assms(1) have "st1 = fst (handle cfg env st (VerifyOtp (Some e) otp role))" by simp
  with assms(2) have rf: "role_fixed e \<rho> st1" by (simp only: handle_role_fixed)
  from u ee have um: "u \<in> set (users st1)" and ue: "u_email u = e"
    by (auto simp: select_user_def find_Some_iff)
  with rf have ur: "u_role u = \<rho>" by (simp add: role_fixed_def)
  from res ee ue ur
  have "res = verified (jwt_sign cfg \<lparr>t_sub = e, t_email = e, t_role = \<rho>\<rparr> (io_now env)) e \<rho>"
    by (simp add: signToken_def)
  moreover from u ee ur have "\<exists>u. select_user (users st1) e = Some u \<and> u_role u = \<rho>"
    by simp
  ultimately show ?thesis using rf by simp
qed

lemma creation_fixes_role:
  assumes "verify_otp cfg env st (Some e) otp role = (st1, Inr res)"
    and "select_user (users st) e = None"
  shows "role_fixed e (finalRole role) st1"
  using assms(1)
proof (rule verify_otp_successE)
  fix e' r
  assume e': "Some e = Some e'"
    and st1: "st1 = st\<lparr>otps := consume_otp (o_id r) (otps st),
                    users := upsert_user e' (finalRole role) (users st)\<rparr>"
  from e' have ee: "e' = e" by simp
  from assms(2) have none: "\<forall>u \<in> set (users st). u_email u \<noteq> e"
    by (auto simp: select_user_def find_None_iff)
  from st1 ee have "users st1 = upsert_user e (finalRole role) (users st)" by simp
  then have "users st1 = users st @
      [\<lparr>u_id = next_id (map u_id (users st)), u_email = e, u_is_verified = 1,
        u_role = finalRole role\<rparr>]"
    by (simp only: upsert_user_None [OF assms(2)])
  with none show ?thesis
    by (auto simp: role_fixed_def finalRole_nonempty)
qed

text \<open>
  Claim C3. Let a successful \<^verbatim>\<open>POST /verify-otp\<close> with the role \<open>role1\<close> create the user of
  an email, and let a later one for the same email, after any requests in between,
  succeed with any role \<open>role2\<close>. Then the role stored for the email is still the one
  given at creation, \<open>finalRole role1\<close>, which is \<open>role1\<close> itself when \<open>role1\<close> is one of the
  two roles \<^verbatim>\<open>viewer\<close> and \<^verbatim>\<open>sharer\<close>; and the token and the user of the second reply
  carry that role.
\<close>

theorem role_fixed_at_creation:
  assumes "verify_otp cfg env1 st (Some e) otp1 role1 = (st1, Inr res1)"
    and "select_user (users st) e = None"
    and "verify_otp cfg env2 (run cfg st1 evs) (Some e) otp2 role2 = (st2, Inr res2)"
  shows "(\<exists>u. select_user (users st2) e = Some u \<and> u_role u = finalRole role1 \<and>
               (role1 = JStr ''viewer'' \<or> role1 = JStr ''sharer'' \<longrightarrow> JStr (u_role u) = role1)) \<and>
         (\<forall>u \<in> set (users st2). u_email u = e \<longrightarrow> u_role u = finalRole role1) \<and>
         res2 = verified
                  (jwt_sign cfg \<lparr>t_sub = e, t_email = e, t_role = finalRole role1\<rparr> (io_now env2))
                  e (finalRole role1)"
proof -
  let ?\<rho> = "finalRole role1"
  from assms(1,2) have "role_fixed e ?\<rho> st1" by (rule creation_fixes_role)
  then have "role_fixed e ?\<rho> (run cfg st1 evs)" by (rule run_role_fixed)
  from verify_otp_role_of_user [OF assms(3) this]
  have rf: "role_fixed e ?\<rho> st2"
    and u: "\<exists>u. select_user (users st2) e = Some u \<and> u_role u = ?\<rho>"
    and res: "res2 = verified (jwt_sign cfg \<lparr>t_sub = e, t_email = e, t_role = ?\<rho>\<rparr> (io_now env2)) e ?\<rho>"
    by simp_all
  have r: "role1 = JStr ''viewer'' \<or> role1 = JStr ''sharer'' \<longrightarrow> JStr ?\<rho> = role1"
    by (auto simp: finalRole_def)
  from u obtain u0 where u0: "select_user (users st2) e = Some u0" "u_role u0 = ?\<rho>" by blast
  with r have c1: "\<exists>u. select_user (users st2) e = Some u \<and> u_role u = ?\<rho> \<and>
               (role1 = JStr ''viewer'' \<or> role1 = JStr ''sharer'' \<longrightarrow> JStr (u_role u) = role1)"
    by simp
  from rf have c2: "\<forall>u \<in> set (users st2). u_email u = e \<longrightarrow> u_role u = ?\<rho>"
    by (simp add: role_fixed_def)
  from c1 c2 res show ?thesis by (intro conjI)
qed

text \<open>\<^verbatim>\<open>a@b.co\<close> verifies as \<^verbatim>\<open>viewer\<close>, requests a new OTP and verifies it as \<^verbatim>\<open>sharer\<close>:
  the role stays \<^verbatim>\<open>viewer\<close>.\<close>

theorem role_fixed_at_creation_witness:
  "verify_otp demo_config (demo_io 1000 0) demo_issued (Some ''a@b.co'') (JStr ''111111'')
       (JStr ''viewer'') =
     (demo_viewer_created, Inr (verified ''viewer:a@b.co'' ''a@b.co'' ''viewer'')) \<and>
   snd (verify_otp demo_config (demo_io 3000 0)
          (run demo_config demo_viewer_created
             [(demo_io 2000 2, RequestOtp (Some ''a@b.co''))])
          (Some ''a@b.co'') (JStr ''222222'') (JStr ''sharer'')) =
     Inr (verified ''viewer:a@b.co'' ''a@b.co'' ''viewer'') \<and>
   users (fst (verify_otp demo_config (demo_io 3000 0)
          (run demo_config demo_viewer_created
             [(demo_io 2000 2, RequestOtp (Some ''a@b.co''))])
          (Some ''a@b.co'') (JStr ''222222'') (JStr ''sharer''))) =
     [\<lparr>u_id = 1, u_email = ''a@b.co'', u_is_verified = 1, u_role = ''viewer''\<rparr>]"
proof -
  let ?evs = "[(demo_io 2000 2, RequestOtp (Some ''a@b.co''))]"
  let ?v2 = "verify_otp demo_config (demo_io 3000 0) (run demo_config demo_viewer_created ?evs)
          (Some ''a@b.co'') (JStr ''222222'') (JStr ''sharer'')"
  have h1: "verify_otp demo_config (demo_io 1000 0) demo_issued (Some ''a@b.co'')
        (JStr ''111111'') (JStr ''viewer'') =
      (demo_viewer_created, Inr (verified ''viewer:a@b.co'' ''a@b.co'' ''viewer''))"
    by (simp add: prod_eq_iff demo_viewer_created_def demo_issued_def, code_simp)
  have h2: "select_user (users demo_issued) ''a@b.co'' = None" by code_simp
  have s: "snd ?v2 = Inr (verified ''viewer:a@b.co'' ''a@b.co'' ''viewer'')" by code_simp
  then have h3: "?v2 = (fst ?v2, Inr (verified ''viewer:a@b.co'' ''a@b.co'' ''viewer''))"
    by (simp add: prod_eq_iff)
  have us: "users (fst ?v2) =
      [\<lparr>u_id = 1, u_email = ''a@b.co'', u_is_verified = 1, u_role = ''viewer''\<rparr>]"
    by code_simp
  from role_fixed_at_creation [OF h1 h2 h3] h1 s us show ?thesis by simp
qed

section \<open>Granting a permission\<close>

lemma upsert_permission_match:
  assumes "p0 \<in> set rows" and "p_viewer_email p0 = v" and "p_sharer_email p0 = s"
  shows "upsert_permission v s rows =
           map (\<lambda>p. if p_viewer_email p = v \<and> p_sharer_email p = s
                     then p\<lparr>p_granted := 1\<rparr> else p) rows"
    and "p0\<lparr>p_granted := 1\<rparr> \<in> set (upsert_permission v s rows)"
proof -
  let ?f = "\<lambda>p. if p_viewer_email p = v \<and> p_sharer_email p = s then p\<lparr>p_granted := 1\<rparr> else p"
  from assms have "\<exists>p \<in> set rows. p_viewer_email p = v \<and> p_sharer_email p = s" by blast
  then show up: "upsert_permission v s rows = map ?f rows"
    by (simp add: upsert_permission_def)
  from assms(1) have "?f p0 \<in> ?f ` set rows" by (rule imageI)
  then have "?f p0 \<in> set (map ?f rows)" by (simp only: set_map)
  with assms(2,3) show "p0\<lparr>p_granted := 1\<rparr> \<in> set (upsert_permission v s rows)"
    unfolding up by simp
qed

lemma upsert_permission_fresh:
  assumes "\<not> (\<exists>p \<in> set rows. p_viewer_email p = v \<and> p_sharer_email p = s)"
  shows "upsert_permission v s rows =
           rows @ [\<lparr>p_viewer_email = v, p_sharer_email = s, p_granted = 1\<rparr>]"
  using assms by (simp add: upsert_permission_def)

lemma upsert_permission_granted:
  "\<exists>p \<in> set (upsert_permission v s rows).
      p_viewer_email p = v \<and> p_sharer_email p = s \<and> p_granted p = 1"
proof (cases "\<exists>p \<in> set rows. p_viewer_email p = v \<and> p_sharer_email p = s")
  case True
  then obtain p0 where p0: "p0 \<in> set rows" "p_viewer_email p0 = v" "p_sharer_email p0 = s"
    by blast
  from upsert_permission_match(2) [OF p0] p0(2,3) show ?thesis
    by (intro bexI [of _ "p0\<lparr>p_granted := 1\<rparr>"]) simp_all
next
  case False
  then show ?thesis by (simp add: upsert_permission_fresh)
qed

lemma upsert_permission_all_granted:
  assumes "q \<in> set (upsert_permission v s rows)"
    and "p_viewer_email q = v" and "p_sharer_email q = s"
  shows "p_granted q = 1"
proof (cases "\<exists>p \<in> set rows. p_viewer_email p = v \<and> p_sharer_email p = s")
  case True
  then obtain p0 where p0: "p0 \<in> set rows" "p_viewer_email p0 = v" "p_sharer_email p0 = s"
    by blast
  let ?f = "\<lambda>p. if p_viewer_email p = v \<and> p_sharer_email p = s then p\<lparr>p_granted := 1\<rparr> else p"
  have up: "upsert_permission v s rows = map ?f rows"
    by (rule upsert_permission_match(1) [OF p0])
  from assms(1) obtain q0 where q0: "q0 \<in> set rows" "q = ?f q0"
    unfolding up by (auto simp only: set_map)
  show ?thesis
  proof (cases "p_viewer_email q0 = v \<and> p_sharer_email q0 = s")
    case True
    with q0 show ?thesis by simp
  next
    case False
    with q0 assms(2,3) show ?thesis by simp
  qed
next
  case False
  from assms(1) have "q \<in> set rows \<or> p_granted q = 1"
    unfolding upsert_permission_fresh [OF False] by auto
  with False assms(2,3) show ?thesis by blast
qed

lemma upsert_permission_idem:
  "upsert_permission v s (upsert_permission v s rows) = upsert_permission v s rows"
proof -
  let ?f = "\<lambda>p. if p_viewer_email p = v \<and> p_sharer_email p = s then p\<lparr>p_granted := 1\<rparr> else p"
  from upsert_permission_granted [of v s rows]
  obtain p where p: "p \<in> set (upsert_permission v s rows)" "p_viewer_email p = v"
    "p_sharer_email p = s"
    by blast
  have "upsert_permission v s (upsert_permission v s rows) = map ?f (upsert_permission v s rows)"
    by (rule upsert_permission_match(1) [OF p])
  also have "\<dots> = upsert_permission v s rows"
  proof (rule map_idI)
    fix q
    assume q: "q \<in> set (upsert_permission v s rows)"
    show "?f q = q"
    proof (cases "p_viewer_email q = v \<and> p_sharer_email q = s")
      case True
      with q have "p_granted q = 1" by (simp add: upsert_permission_all_granted)
      with True show ?thesis by simp
    next
      case False
      then show ?thesis by auto
    qed
  qed
  finally show ?thesis .
qed

lemma upsert_permission_keys:
  assumes "distinct (map (\<lambda>p. (p_viewer_email p, p_sharer_email p)) rows)"
  shows "distinct (map (\<lambda>p. (p_viewer_email p, p_sharer_email p)) (upsert_permission v s rows))"
proof (cases "\<exists>p \<in> set rows. p_viewer_email p = v \<and> p_sharer_email p = s")
  case True
  then obtain p0 where p0: "p0 \<in> set rows" "p_viewer_email p0 = v" "p_sharer_email p0 = s"
    by blast
  have "map (\<lambda>p. (p_viewer_email p, p_sharer_email p)) (upsert_permission v s rows) =
        map (\<lambda>p. (p_viewer_email p, p_sharer_email p)) rows"
    unfolding upsert_permission_match(1) [OF p0] by (induction rows) simp_all
  with assms show ?thesis by simp
next
  case False
  with assms show ?thesis by (auto simp: upsert_permission_fresh)
qed

lemma filter_key_single:
  assumes "distinct (map k xs)" and "x \<in> set xs"
  shows "filter (\<lambda>y. k y = k x) xs = [x]"
  using assms
proof (induction xs)
  case Nil
  then show ?case by simp
next
  case (Cons y ys)
  show ?case
  proof (cases "x = y")
    case True
    from Cons.prems(1) have "k y \<notin> k ` set ys" by simp
    then have "\<forall>z \<in> set ys. k z \<noteq> k y" by (metis imageI)
    then have "filter (\<lambda>z. k z = k y) ys = []" by (auto simp: filter_empty_conv)
    with True show ?thesis by simp
  next
    case False
    with Cons.prems have x: "x \<in> set ys" and "k y \<noteq> k x" by auto
    with Cons show ?thesis by simp
  qed
qed

lemma handle_perm_unique:
  assumes "perm_unique st"
  shows "perm_unique (fst (handle cfg env st rq))"
proof (cases rq)
  case (RequestOtp email)
  from request_otp_cases [of cfg env st email] assms show ?thesis
    unfolding RequestOtp by (auto simp: perm_unique_def)
next
  case (VerifyOtp email otp role)
  from verify_otp_cases [of cfg env st email otp role] assms show ?thesis
    unfolding VerifyOtp by (auto simp: perm_unique_def)
next
  case (PostLocation a b)
  from post_location_cases [of cfg env st a b] assms show ?thesis
    unfolding PostLocation by (auto simp: perm_unique_def)
next
  case (GetLocation a b)
  with assms show ?thesis by (simp add: get_location_state)
next
  case (GrantPermission a b)
  from grant_permission_cases [of cfg env st a b] assms show ?thesis
    unfolding GrantPermission by (auto simp: perm_unique_def upsert_permission_keys)
qed

lemma run_perm_unique: "perm_unique (run cfg init_world evs)"
proof (rule run_invariant [where P = perm_unique])
  show "perm_unique init_world" by (simp add: perm_unique_def init_world_def)
qed (rule handle_perm_unique)

text \<open>
  Claim C5. In every state the server reaches from an empty database, for every token
  that verifies with the role \<^verbatim>\<open>sharer\<close> and every viewer email that is not empty:
  \<^verbatim>\<open>POST /permissions/grant\<close> succeeds, succeeds again on the state it returned and
  returns that same state, in which exactly one row of \<^verbatim>\<open>permissions\<close> is for the pair
  of the viewer and the sharer, with \<^verbatim>\<open>granted = 1\<close>.
\<close>

theorem grant_permission_idempotent:
  assumes "authMiddleware cfg env1 auth1 = Inr user1" and "t_role user1 = ''sharer''"
    and "authMiddleware cfg env2 auth2 = Inr user2" and "t_role user2 = ''sharer''"
    and "t_email user2 = t_email user1"
    and "v \<noteq> []"
  shows "\<exists>st1 p.
      grant_permission cfg env1 (run cfg init_world evs) auth1 (Some v) =
        (st1, Inr permission_granted) \<and>
      grant_permission cfg env2 st1 auth2 (Some v) = (st1, Inr permission_granted) \<and>
      filter (\<lambda>q. p_viewer_email q = v \<and> p_sharer_email q = t_email user1) (permissions st1) = [p] \<and>
      p_granted p = 1"
proof -
  let ?st = "run cfg init_world evs"
  let ?s = "t_email user1"
  let ?k = "\<lambda>p. (p_viewer_email p, p_sharer_email p)"
  let ?st1 = "?st\<lparr>permissions := upsert_permission v ?s (permissions ?st)\<rparr>"
  from assms(1,2,6) have g1: "grant_permission cfg env1 ?st auth1 (Some v) =
      (?st1, Inr permission_granted)"
    by (simp add: grant_permission_def)
  from assms(3,4,5,6) have g2: "grant_permission cfg env2 ?st1 auth2 (Some v) =
      (?st1, Inr permission_granted)"
    by (simp add: grant_permission_def upsert_permission_idem)
  have "perm_unique ?st" by (rule run_perm_unique)
  then have d: "distinct (map ?k (permissions ?st1))"
    by (simp add: perm_unique_def upsert_permission_keys)
  from upsert_permission_granted [of v ?s "permissions ?st"]
  obtain p where p: "p \<in> set (permissions ?st1)" "?k p = (v, ?s)" "p_granted p = 1"
    by auto
  from filter_key_single [OF d p(1)] p(2)
  have "filter (\<lambda>q. p_viewer_email q = v \<and> p_sharer_email q = ?s) (permissions ?st1) = [p]"
    by (simp add: prod_eq_iff)
  with g1 g2 p(3) show ?thesis
    by (intro exI [of _ ?st1] exI [of _ p] conjI)
qed

text \<open>The same grant twice on a fresh database.\<close>

theorem grant_permission_idempotent_witness:
  "grant_permission demo_config (demo_io 0 0) init_world (Some ''Bearer sharer:s@x.com'')
       (Some ''v@y.com'') =
     (demo_granted, Inr permission_granted) \<and>
   grant_permission demo_config (demo_io 1000 0) demo_granted (Some ''Bearer sharer:s@x.com'')
       (Some ''v@y.com'') =
     (demo_granted, Inr permission_granted) \<and>
   permissions demo_granted =
     [\<lparr>p_viewer_email = ''v@y.com'', p_sharer_email = ''s@x.com'', p_granted = 1\<rparr>]"
proof -
  let ?s = "\<lparr>t_sub = ''s@x.com'', t_email = ''s@x.com'', t_role = ''sharer''\<rparr>"
  let ?hdr = "Some ''Bearer sharer:s@x.com''"
  have h1: "authMiddleware demo_config (demo_io 0 0) ?hdr = Inr ?s" by code_simp
  have h2: "authMiddleware demo_config (demo_io 1000 0) ?hdr = Inr ?s" by code_simp
  have h3: "t_role ?s = ''sharer''" by simp
  have h4: "''v@y.com'' \<noteq> []" by simp
  have g: "fst (grant_permission demo_config (demo_io 0 0) init_world ?hdr (Some ''v@y.com'')) =
      demo_granted"
    by (simp add: demo_granted_def)
  have p: "permissions demo_granted =
     [\<lparr>p_viewer_email = ''v@y.com'', p_sharer_email = ''s@x.com'', p_granted = 1\<rparr>]"
    by code_simp
  from grant_permission_idempotent [OF h1 h3 h2 h3 refl h4, of "[]"]
  obtain st1 where a: "grant_permission demo_config (demo_io 0 0) init_world ?hdr (Some ''v@y.com'') =
        (st1, Inr permission_granted)"
    and b: "grant_permission demo_config (demo_io 1000 0) st1 ?hdr (Some ''v@y.com'') =
        (st1, Inr permission_granted)"
    by auto
  from a g have "st1 = demo_granted" by simp
  with a b p show ?thesis by simp
qed

section \<open>The latest location\<close>

lemma order_limit1_max:
  assumes asym: "\<And>a b. before a b \<Longrightarrow> \<not> before b a"
    and ntrans: "\<And>a b c. \<not> before a b \<Longrightarrow> \<not> before b c \<Longrightarrow> \<not> before a c"
    and "order_limit1 before rs = Some m"
  shows "\<forall>x \<in> set rs. \<not> before x m"
  using assms(3)
proof (induction rs arbitrary: m)
  case Nil
  then show ?case by simp
next
  case (Cons r rs)
  have irr: "\<not> before a a" for a using asym by blast
  show ?case
  proof (cases "order_limit1 before rs")
    case None
    then have "rs = []" by (simp add: order_limit1_None)
    with Cons.prems None irr show ?thesis by simp
  next
    case (Some b)
    with Cons.IH have b: "\<forall>x \<in> set rs. \<not> before x b" by simp
    show ?thesis
    proof (cases "before b r")
      case True
      with Some Cons.prems have "m = b" by simp
      with b True asym show ?thesis by auto
    next
      case False
      with Some Cons.prems have m: "m = r" by simp
      have "\<not> before x r" if "x \<in> set rs" for x
        using b that False ntrans by blast
      with m irr show ?thesis by simp
    qed
  qed
qed

lemma latest_location_None:
  "latest_location st e = None \<longleftrightarrow> \<not> (\<exists>x \<in> set (locations st). l_email x = e)"
  by (auto simp: latest_location_def order_limit1_None filter_empty_conv)

lemma latest_location_Some:
  assumes "latest_location st e = Some r"
  shows "r \<in> set (locations st) \<and> l_email r = e \<and>
         (\<forall>x \<in> set (locations st). l_email x = e \<longrightarrow>
            l_updatedAt x < l_updatedAt r \<or> (l_updatedAt x = l_updatedAt r \<and> l_id x \<le> l_id r))"
proof -
  let ?before = "\<lambda>a b. l_updatedAt a > l_updatedAt b \<or> (l_updatedAt a = l_updatedAt b \<and> l_id a > l_id b)"
  let ?sel = "filter (\<lambda>l. l_email l = e) (locations st)"
  from assms have o: "order_limit1 ?before ?sel = Some r" by (simp add: latest_location_def)
  then have "r \<in> set ?sel" by (rule order_limit1_mem)
  then have m: "r \<in> set (locations st)" "l_email r = e" by simp_all
  have "\<forall>x \<in> set ?sel. \<not> ?before x r"
  proof (rule order_limit1_max [where before = ?before, OF _ _ o])
    show "\<And>a b. ?before a b \<Longrightarrow> \<not> ?before b a" by auto
    show "\<And>a b c. \<not> ?before a b \<Longrightarrow> \<not> ?before b c \<Longrightarrow> \<not> ?before a c" by auto
  qed
  then have "\<forall>x \<in> set (locations st). l_email x = e \<longrightarrow>
            l_updatedAt x < l_updatedAt r \<or> (l_updatedAt x = l_updatedAt r \<and> l_id x \<le> l_id r)"
    by auto
  with m show ?thesis by simp
qed

lemma latest_location_appended:
  assumes "\<forall>x \<in> set (locations st). l_email x = s \<longrightarrow> l_updatedAt x \<le> u1"
    and "u1 \<le> u2"
    and "locs = locations st @
           [\<lparr>l_id = i1, l_email = s, l_lat = lat1, l_lng = lng1, l_updatedAt = u1\<rparr>,
            \<lparr>l_id = i2, l_email = s, l_lat = lat2, l_lng = lng2, l_updatedAt = u2\<rparr>]"
    and "i1 = next_id (map l_id (locations st))" and "i1 < i2"
  shows "latest_location (st\<lparr>locations := locs\<rparr>) s =
           Some \<lparr>l_id = i2, l_email = s, l_lat = lat2, l_lng = lng2, l_updatedAt = u2\<rparr>"
proof -
  let ?r1 = "\<lparr>l_id = i1, l_email = s, l_lat = lat1, l_lng = lng1, l_updatedAt = u1\<rparr>"
  let ?r2 = "\<lparr>l_id = i2, l_email = s, l_lat = lat2, l_lng = lng2, l_updatedAt = u2\<rparr>"
  let ?before = "\<lambda>a b. l_updatedAt a > l_updatedAt b \<or> (l_updatedAt a = l_updatedAt b \<and> l_id a > l_id b)"
  let ?sel = "filter (\<lambda>l. l_email l = s) locs"
  have mem: "?r2 \<in> set ?sel" using assms(3) by simp
  have top: "x = ?r2 \<or> (?before ?r2 x \<and> \<not> ?before x ?r2)" if "x \<in> set ?sel" for x
  proof -
    from that assms(3) consider "x \<in> set (locations st) \<and> l_email x = s" | "x = ?r1" | "x = ?r2"
      by auto
    then show ?thesis
    proof cases
      case 1
      with assms(1) have "l_updatedAt x \<le> u1" by simp
      moreover from 1 have "l_id x < i1" unfolding assms(4) by (intro next_id_gt) simp
      ultimately show ?thesis using assms(2,5) by auto
    next
      case 2
      with assms(2,5) show ?thesis by auto
    next
      case 3
      then show ?thesis by simp
    qed
  qed
  from mem top have "order_limit1 ?before ?sel = Some ?r2"
    by (intro order_limit1_top) blast+
  then show ?thesis by (simp add: latest_location_def)
qed

lemma get_location_granted:
  assumes "authMiddleware cfg env auth = Inr viewer" and "t_role viewer = ''viewer''"
    and "\<exists>p \<in> set (permissions st). p_viewer_email p = t_email viewer \<and>
           p_sharer_email p = e \<and> p_granted p = 1"
  shows "get_location cfg env st auth e =
           (case latest_location st e of
              None \<Rightarrow> (st, Inl (404, no_location_found))
            | Some loc \<Rightarrow> (st, Inr (location (l_email loc) (json_number (l_lat loc))
                                       (json_number (l_lng loc)) (l_updatedAt loc))))"
proof -
  from assms(3) have "has_permission st (t_email viewer) e"
    by (auto simp: has_permission_def find_None_iff)
  with assms(1,2) show ?thesis by (simp add: get_location_def)
qed

text \<open>
  Claim C6, as the handlers have it. Two requests to \<^verbatim>\<open>POST /locations\<close> by the same
  sharer with numeric coordinates both succeed and append one row each, dated with the
  second of the clock, the rows before them unchanged. \<^verbatim>\<open>GET /locations/:email\<close> by a
  viewer with a grant returns, in every state, the row of the sharer that is the newest
  by \<^verbatim>\<open>updatedAt\<close> and, among rows of the same second, has the highest id, a coordinate
  that is not finite written as \<^verbatim>\<open>null\<close>; it answers 404 when the sharer has no row. This
  is the row of the second post when no row of the sharer is dated after the first post
  and the second post is not dated before the first.
\<close>

theorem latest_location_by_timestamp:
  assumes "authMiddleware cfg env1 auth1 = Inr user1" and "t_role user1 = ''sharer''"
    and "authMiddleware cfg env2 auth2 = Inr user2" and "t_role user2 = ''sharer''"
    and "t_email user2 = t_email user1"
    and "body1 ''lat'' = JNum lat1" and "body1 ''lng'' = JNum lng1"
    and "body2 ''lat'' = JNum lat2" and "body2 ''lng'' = JNum lng2"
    and "authMiddleware cfg env3 auth3 = Inr viewer" and "t_role viewer = ''viewer''"
  shows "\<exists>st1 st2 r1 r2.
     post_location cfg env1 st auth1 body1 = (st1, Inr location_saved) \<and>
     post_location cfg env2 st1 auth2 body2 = (st2, Inr location_saved) \<and>
     locations st2 = locations st @ [r1, r2] \<and>
     l_email r1 = t_email user1 \<and> l_lat r1 = lat1 \<and> l_lng r1 = lng1 \<and>
     l_updatedAt r1 = io_now env1 div 1000 \<and>
     l_email r2 = t_email user1 \<and> l_lat r2 = lat2 \<and> l_lng r2 = lng2 \<and>
     l_updatedAt r2 = io_now env2 div 1000 \<and> l_id r1 < l_id r2 \<and>
     (\<forall>st' e.
        (\<exists>p \<in> set (permissions st'). p_viewer_email p = t_email viewer \<and>
            p_sharer_email p = e \<and> p_granted p = 1) \<longrightarrow>
        (\<not> (\<exists>x \<in> set (locations st'). l_email x = e) \<and>
         get_location cfg env3 st' auth3 e = (st', Inl (404, no_location_found))) \<or>
        (\<exists>r \<in> set (locations st'). l_email r = e \<and>
           (\<forall>x \<in> set (locations st'). l_email x = e \<longrightarrow>
              l_updatedAt x < l_updatedAt r \<or>
              (l_updatedAt x = l_updatedAt r \<and> l_id x \<le> l_id r)) \<and>
           get_location cfg env3 st' auth3 e =
             (st', Inr (location e (json_number (l_lat r)) (json_number (l_lng r))
                          (l_updatedAt r))))) \<and>
     ((\<exists>p \<in> set (permissions st). p_viewer_email p = t_email viewer \<and>
          p_sharer_email p = t_email user1 \<and> p_granted p = 1) \<and>
      (\<forall>x \<in> set (locations st). l_email x = t_email user1 \<longrightarrow>
          l_updatedAt x \<le> io_now env1 div 1000) \<and>
      io_now env1 div 1000 \<le> io_now env2 div 1000 \<longrightarrow>
      get_location cfg env3 st2 auth3 (t_email user1) =
        (st2, Inr (location (t_email user1) (json_number lat2) (json_number lng2)
                     (io_now env2 div 1000))))"
proof -
  let ?s = "t_email user1"
  let ?i1 = "next_id (map l_id (locations st))"
  let ?r1 = "\<lparr>l_id = ?i1, l_email = ?s, l_lat = lat1, l_lng = lng1,
              l_updatedAt = io_now env1 div 1000\<rparr>"
  let ?i2 = "next_id (map l_id (locations st @ [?r1]))"
  let ?r2 = "\<lparr>l_id = ?i2, l_email = ?s, l_lat = lat2, l_lng = lng2,
              l_updatedAt = io_now env2 div 1000\<rparr>"
  let ?st1 = "st\<lparr>locations := locations st @ [?r1]\<rparr>"
  let ?st2 = "st\<lparr>locations := locations st @ [?r1, ?r2]\<rparr>"
  from assms(1,2,6,7) have p1: "post_location cfg env1 st auth1 body1 = (?st1, Inr location_saved)"
    by (simp add: post_location_def insert_location_def)
  from assms(3,4,5,8,9) have p2: "post_location cfg env2 ?st1 auth2 body2 = (?st2, Inr location_saved)"
    by (simp add: post_location_def insert_location_def)
  have "l_id ?r1 \<in> set (map l_id (locations st @ [?r1]))" by simp
  then have "l_id ?r1 < ?i2" by (rule next_id_gt)
  then have lt: "?i1 < ?i2" by simp
  have rule: "(\<not> (\<exists>x \<in> set (locations st'). l_email x = e) \<and>
         get_location cfg env3 st' auth3 e = (st', Inl (404, no_location_found))) \<or>
        (\<exists>r \<in> set (locations st'). l_email r = e \<and>
           (\<forall>x \<in> set (locations st'). l_email x = e \<longrightarrow>
              l_updatedAt x < l_updatedAt r \<or>
              (l_updatedAt x = l_updatedAt r \<and> l_id x \<le> l_id r)) \<and>
           get_location cfg env3 st' auth3 e =
             (st', Inr (location e (json_number (l_lat r)) (json_number (l_lng r))
                          (l_updatedAt r))))"
    if g: "\<exists>p \<in> set (permissions st'). p_viewer_email p = t_email viewer \<and>
            p_sharer_email p = e \<and> p_granted p = 1" for st' e
  proof (cases "latest_location st' e")
    case None
    with get_location_granted [OF assms(10,11) g]
    have "get_location cfg env3 st' auth3 e = (st', Inl (404, no_location_found))" by simp
    moreover from None latest_location_None [of st' e]
    have "\<not> (\<exists>x \<in> set (locations st'). l_email x = e)"
      by blast
    ultimately show ?thesis by blast
  next
    case (Some r)
    from latest_location_Some [OF Some]
    have r: "r \<in> set (locations st')" "l_email r = e"
      "\<forall>x \<in> set (locations st'). l_email x = e \<longrightarrow>
              l_updatedAt x < l_updatedAt r \<or> (l_updatedAt x = l_updatedAt r \<and> l_id x \<le> l_id r)"
      by simp_all
    from get_location_granted [OF assms(10,11) g] Some r(2)
    have "get_location cfg env3 st' auth3 e =
        (st', Inr (location e (json_number (l_lat r)) (json_number (l_lng r)) (l_updatedAt r)))"
      by simp
    with r show ?thesis by blast
  qed
  have second: "get_location cfg env3 ?st2 auth3 ?s =
        (?st2, Inr (location ?s (json_number lat2) (json_number lng2) (io_now env2 div 1000)))"
    if g: "\<exists>p \<in> set (permissions st). p_viewer_email p = t_email viewer \<and>
          p_sharer_email p = ?s \<and> p_granted p = 1"
      and old: "\<forall>x \<in> set (locations st). l_email x = ?s \<longrightarrow> l_updatedAt x \<le> io_now env1 div 1000"
      and le: "io_now env1 div 1000 \<le> io_now env2 div 1000"
  proof -
    have ll: "latest_location ?st2 ?s = Some ?r2"
      by (rule latest_location_appended [OF old le refl refl lt])
    from g have g2: "\<exists>p \<in> set (permissions ?st2). p_viewer_email p = t_email viewer \<and>
          p_sharer_email p = ?s \<and> p_granted p = 1"
      by simp
    from get_location_granted [OF assms(10,11) g2] ll show ?thesis by simp
  qed
  have l2: "locations ?st2 = locations st @ [?r1, ?r2]" by simp
  have R: "\<forall>st' e.
        (\<exists>p \<in> set (permissions st'). p_viewer_email p = t_email viewer \<and>
            p_sharer_email p = e \<and> p_granted p = 1) \<longrightarrow>
        (\<not> (\<exists>x \<in> set (locations st'). l_email x = e) \<and>
         get_location cfg env3 st' auth3 e = (st', Inl (404, no_location_found))) \<or>
        (\<exists>r \<in> set (locations st'). l_email r = e \<and>
           (\<forall>x \<in> set (locations st'). l_email x = e \<longrightarrow>
              l_updatedAt x < l_updatedAt r \<or>
              (l_updatedAt x = l_updatedAt r \<and> l_id x \<le> l_id r)) \<and>
           get_location cfg env3 st' auth3 e =
             (st', Inr (location e (json_number (l_lat r)) (json_number (l_lng r))
                          (l_updatedAt r))))"
    by (intro allI impI) (rule rule)
  have S: "(\<exists>p \<in> set (permissions st). p_viewer_email p = t_email viewer \<and>
          p_sharer_email p = t_email user1 \<and> p_granted p = 1) \<and>
      (\<forall>x \<in> set (locations st). l_email x = t_email user1 \<longrightarrow>
          l_updatedAt x \<le> io_now env1 div 1000) \<and>
      io_now env1 div 1000 \<le> io_now env2 div 1000 \<longrightarrow>
      get_location cfg env3 ?st2 auth3 (t_email user1) =
        (?st2, Inr (location (t_email user1) (json_number lat2) (json_number lng2)
                     (io_now env2 div 1000)))"
    by (intro impI, elim conjE) (rule second)
  have f1: "l_email ?r1 = ?s \<and> l_lat ?r1 = lat1 \<and> l_lng ?r1 = lng1 \<and>
     l_updatedAt ?r1 = io_now env1 div 1000 \<and>
     l_email ?r2 = ?s \<and> l_lat ?r2 = lat2 \<and> l_lng ?r2 = lng2 \<and>
     l_updatedAt ?r2 = io_now env2 div 1000"
    by simp
  from lt have f2: "l_id ?r1 < l_id ?r2" by simp
  show ?thesis
    apply (rule exI [of _ ?st1], rule exI [of _ ?st2], rule exI [of _ ?r1], rule exI [of _ ?r2])
    apply (intro conjI)
    using p1 p2 l2 f1 f2 R S by (assumption | blast)+
qed

text \<open>With the clock set back between the two posts the read returns the first post; and
  a second post with an infinite latitude is read back with \<^verbatim>\<open>lat\<close> \<^verbatim>\<open>null\<close>.\<close>

theorem latest_location_counterexample:
  "locations demo_clock_back =
     [\<lparr>l_id = 1, l_email = ''s@x.com'', l_lat = Finite 10, l_lng = Finite 20, l_updatedAt = 9\<rparr>,
      \<lparr>l_id = 2, l_email = ''s@x.com'', l_lat = Finite 11, l_lng = Finite 21, l_updatedAt = 5\<rparr>] \<and>
   get_location demo_config (demo_io 10000 0) demo_clock_back (Some ''Bearer viewer:v@y.com'')
       ''s@x.com'' =
     (demo_clock_back, Inr (location ''s@x.com'' (JNum (Finite 10)) (JNum (Finite 20)) 9)) \<and>
   locations demo_posted_infinity =
     [\<lparr>l_id = 1, l_email = ''s@x.com'', l_lat = Finite 10, l_lng = Finite 20, l_updatedAt = 5\<rparr>,
      \<lparr>l_id = 2, l_email = ''s@x.com'', l_lat = PosInfinity, l_lng = Finite 21, l_updatedAt = 7\<rparr>] \<and>
   get_location demo_config (demo_io 10000 0) demo_posted_infinity (Some ''Bearer viewer:v@y.com'')
       ''s@x.com'' =
     (demo_posted_infinity, Inr (location ''s@x.com'' JNull (JNum (Finite 21)) 7))"
proof -
  have a: "locations demo_clock_back =
     [\<lparr>l_id = 1, l_email = ''s@x.com'', l_lat = Finite 10, l_lng = Finite 20, l_updatedAt = 9\<rparr>,
      \<lparr>l_id = 2, l_email = ''s@x.com'', l_lat = Finite 11, l_lng = Finite 21, l_updatedAt = 5\<rparr>]"
    by code_simp
  have b: "get_location demo_config (demo_io 10000 0) demo_clock_back
       (Some ''Bearer viewer:v@y.com'') ''s@x.com'' =
     (demo_clock_back, Inr (location ''s@x.com'' (JNum (Finite 10)) (JNum (Finite 20)) 9))"
    by (simp add: prod_eq_iff get_location_state, code_simp)
  have c: "locations demo_posted_infinity =
     [\<lparr>l_id = 1, l_email = ''s@x.com'', l_lat = Finite 10, l_lng = Finite 20, l_updatedAt = 5\<rparr>,
      \<lparr>l_id = 2, l_email = ''s@x.com'', l_lat = PosInfinity, l_lng = Finite 21, l_updatedAt = 7\<rparr>]"
    by code_simp
  have d: "get_location demo_config (demo_io 10000 0) demo_posted_infinity
       (Some ''Bearer viewer:v@y.com'') ''s@x.com'' =
     (demo_posted_infinity, Inr (location ''s@x.com'' JNull (JNum (Finite 21)) 7))"
    by (simp add: prod_eq_iff get_location_state, code_simp)
  from a b c d show ?thesis by simp
qed

text \<open>Two posts within one second: the timestamps tie and the higher id wins.\<close>

theorem latest_location_by_timestamp_witness:
  "locations demo_posted_twice =
     [\<lparr>l_id = 1, l_email = ''s@x.com'', l_lat = Finite 10, l_lng = Finite 20, l_updatedAt = 5\<rparr>,
      \<lparr>l_id = 2, l_email = ''s@x.com'', l_lat = Finite 11, l_lng = Finite 21, l_updatedAt = 5\<rparr>] \<and>
   get_location demo_config (demo_io 6000 0) demo_posted_twice (Some ''Bearer viewer:v@y.com'')
       ''s@x.com'' =
     (demo_posted_twice, Inr (location ''s@x.com'' (JNum (Finite 11)) (JNum (Finite 21)) 5))"
proof -
  let ?s = "\<lparr>t_sub = ''s@x.com'', t_email = ''s@x.com'', t_role = ''sharer''\<rparr>"
  let ?v = "\<lparr>t_sub = ''v@y.com'', t_email = ''v@y.com'', t_role = ''viewer''\<rparr>"
  let ?hs = "Some ''Bearer sharer:s@x.com''"
  let ?hv = "Some ''Bearer viewer:v@y.com''"
  have a1: "authMiddleware demo_config (demo_io 5000 0) ?hs = Inr ?s" by code_simp
  have a2: "authMiddleware demo_config (demo_io 5400 0) ?hs = Inr ?s" by code_simp
  have a3: "authMiddleware demo_config (demo_io 6000 0) ?hv = Inr ?v" by code_simp
  have rs: "t_role ?s = ''sharer''" and rv: "t_role ?v = ''viewer''" by simp_all
  have b1: "demo_body (Finite 10) (Finite 20) ''lat'' = JNum (Finite 10)"
    "demo_body (Finite 10) (Finite 20) ''lng'' = JNum (Finite 20)"
    and b2: "demo_body (Finite 11) (Finite 21) ''lat'' = JNum (Finite 11)"
    "demo_body (Finite 11) (Finite 21) ''lng'' = JNum (Finite 21)"
    by (simp_all add: demo_body_def)
  have g: "\<exists>p \<in> set (permissions demo_granted).
           p_viewer_email p = t_email ?v \<and> p_sharer_email p = t_email ?s \<and> p_granted p = 1"
    by code_simp
  have o: "\<forall>x \<in> set (locations demo_granted). l_email x = t_email ?s \<longrightarrow>
          l_updatedAt x \<le> io_now (demo_io 5000 0) div 1000"
    by code_simp
  have t: "io_now (demo_io 5000 0) div 1000 \<le> io_now (demo_io 5400 0) div 1000"
    by (simp add: demo_io_def)
  have l: "locations demo_posted_twice =
     [\<lparr>l_id = 1, l_email = ''s@x.com'', l_lat = Finite 10, l_lng = Finite 20, l_updatedAt = 5\<rparr>,
      \<lparr>l_id = 2, l_email = ''s@x.com'', l_lat = Finite 11, l_lng = Finite 21, l_updatedAt = 5\<rparr>]"
    by code_simp
  from latest_location_by_timestamp [OF a1 rs a2 rs refl b1 b2 a3 rv, of demo_granted]
  obtain st1 st2 where
    p1: "post_location demo_config (demo_io 5000 0) demo_granted ?hs
           (demo_body (Finite 10) (Finite 20)) = (st1, Inr location_saved)"
    and p2: "post_location demo_config (demo_io 5400 0) st1 ?hs
           (demo_body (Finite 11) (Finite 21)) = (st2, Inr location_saved)"
    and gl: "(\<exists>p \<in> set (permissions demo_granted). p_viewer_email p = t_email ?v \<and>
          p_sharer_email p = t_email ?s \<and> p_granted p = 1) \<and>
      (\<forall>x \<in> set (locations demo_granted). l_email x = t_email ?s \<longrightarrow>
          l_updatedAt x \<le> io_now (demo_io 5000 0) div 1000) \<and>
      io_now (demo_io 5000 0) div 1000 \<le> io_now (demo_io 5400 0) div 1000 \<longrightarrow>
      get_location demo_config (demo_io 6000 0) st2 ?hv (t_email ?s) =
        (st2, Inr (location (t_email ?s) (json_number (Finite 11)) (json_number (Finite 21))
                     (io_now (demo_io 5400 0) div 1000)))"
    by blast
  from p1 p2 have "st2 = demo_posted_twice"
    by (simp add: demo_posted_twice_def demo_granted_def prod_eq_iff)
  with gl g o t l show ?thesis by (simp add: demo_io_def json_number_def)
qed

section \<open>An older OTP beside a newer one\<close>

lemma select_user_upsert: "\<exists>u. select_user (upsert_user e \<rho> rows) e = Some u"
proof (cases "select_user rows e")
  case None
  then show ?thesis
    by (simp add: upsert_user_None select_user_def find_append_None)
next
  case (Some user)
  then have u0: "user \<in> set rows" "u_email user = e"
    by (auto simp: select_user_def find_Some_iff)
  let ?g = "\<lambda>u. if u_email u = e
                then u\<lparr>u_is_verified := (if u_is_verified user = 0 then 1 else u_is_verified u),
                       u_role := (if u_role user = [] then \<rho> else u_role u)\<rparr>
                else u"
  from u0(1) have "?g user \<in> ?g ` set rows" by (rule imageI)
  then have "?g user \<in> set (upsert_user e \<rho> rows)"
    unfolding upsert_user_Some [OF Some] by (simp only: set_map)
  moreover from u0(2) have "u_email (?g user) = e" by simp
  ultimately have "\<exists>u \<in> set (upsert_user e \<rho> rows). u_email u = e" by blast
  then have "find (\<lambda>u. u_email u = e) (upsert_user e \<rho> rows) \<noteq> None"
    unfolding find_None_iff by blast
  then show ?thesis by (auto simp: select_user_def)
qed

lemma verify_otp_accepts:
  assumes "lookup_otp st e = Some r" and "e \<noteq> []" and "o_code r \<noteq> []"
    and "io_now env \<le> o_expiresAt r"
  shows "\<exists>res. verify_otp cfg env st (Some e) (JStr (o_code r)) role =
           (st\<lparr>otps := consume_otp (o_id r) (otps st),
               users := upsert_user e (finalRole role) (users st)\<rparr>, Inr res)"
proof -
  from select_user_upsert [of e "finalRole role" "users st"]
  obtain u where "select_user (upsert_user e (finalRole role) (users st)) e = Some u" by blast
  with assms show ?thesis by (simp add: verify_otp_def Let_def)
qed

lemma verify_otp_wrong_code:
  assumes "lookup_otp st e = Some r" and "e \<noteq> []" and "truthy otp"
    and "io_now env \<le> o_expiresAt r" and "otp \<noteq> JStr (o_code r)"
  shows "verify_otp cfg env st (Some e) otp role = (st, Inl (401, invalid_otp))"
  using assms by (simp add: verify_otp_def)

lemma filter_consume_otp:
  "filter (\<lambda>r. o_email r = e \<and> o_consumed r = 0) (consume_otp i rows) =
   filter (\<lambda>r. o_email r = e \<and> o_consumed r = 0 \<and> o_id r \<noteq> i) rows"
  by (induction rows) (auto simp: consume_otp_def)

lemma lookup_otp_next:
  assumes "old \<in> set (otps st)" and "o_email old = e" and "o_consumed old = 0"
    and "o_id old \<noteq> i"
    and "\<forall>q \<in> set (otps st). o_email q = e \<and> o_consumed q = 0 \<and> o_id q \<noteq> i \<longrightarrow>
           q = old \<or> o_id q < o_id old"
  shows "lookup_otp (st\<lparr>otps := consume_otp i (otps st), users := us\<rparr>) e = Some old"
proof -
  let ?sel = "filter (\<lambda>r. o_email r = e \<and> o_consumed r = 0 \<and> o_id r \<noteq> i) (otps st)"
  from assms(1-4) have "old \<in> set ?sel" by simp
  moreover from assms(5) have "\<forall>x \<in> set ?sel. x = old \<or> (o_id x < o_id old \<and> \<not> o_id old < o_id x)"
    by auto
  ultimately have "order_limit1 (\<lambda>a b. o_id a > o_id b) ?sel = Some old"
    by (rule order_limit1_top)
  then show ?thesis by (simp add: lookup_otp_def filter_consume_otp)
qed

text \<open>
  In a state the server reaches from an empty database, let \<open>new\<close> be the newest
  unconsumed OTP row of an email and \<open>old\<close> the next newest, both unexpired. Verification
  compares the code with the one of \<open>new\<close> only: with the code of \<open>old\<close> it answers 401
  \<open>invalid_otp\<close> and changes nothing, unless the two codes are equal, in which case it
  succeeds and consumes \<open>new\<close>. Once a verification with the code of \<open>new\<close> has succeeded,
  \<open>old\<close> is the row looked up and a verification with its code succeeds.
\<close>

lemma newest_code_only:
  assumes "lookup_otp (run cfg init_world evs) e = Some new"
    and "old \<in> set (otps (run cfg init_world evs))"
    and "o_email old = e" and "o_consumed old = 0" and "o_id old < o_id new"
    and "\<forall>q \<in> set (otps (run cfg init_world evs)).
           o_email q = e \<and> o_consumed q = 0 \<and> o_id q \<noteq> o_id new \<longrightarrow>
           q = old \<or> o_id q < o_id old"
    and "io_now env1 \<le> o_expiresAt new" and "io_now env2 \<le> o_expiresAt old"
  shows "(o_code old \<noteq> o_code new \<longrightarrow>
            verify_otp cfg env1 (run cfg init_world evs) (Some e) (JStr (o_code old)) role =
              (run cfg init_world evs, Inl (401, invalid_otp))) \<and>
         (o_code old = o_code new \<longrightarrow>
            (\<exists>st1 res. verify_otp cfg env1 (run cfg init_world evs) (Some e) (JStr (o_code old)) role =
                          (st1, Inr res) \<and>
                        otps st1 = consume_otp (o_id new) (otps (run cfg init_world evs)) \<and>
                        old \<in> set (otps st1))) \<and>
         (\<exists>st1 res1 st2 res2.
            verify_otp cfg env1 (run cfg init_world evs) (Some e) (JStr (o_code new)) role =
              (st1, Inr res1) \<and>
            lookup_otp st1 e = Some old \<and>
            verify_otp cfg env2 st1 (Some e) (JStr (o_code old)) role2 = (st2, Inr res2))"
proof -
  let ?st = "run cfg init_world evs"
  let ?st1 = "?st\<lparr>otps := consume_otp (o_id new) (otps ?st),
                   users := upsert_user e (finalRole role) (users ?st)\<rparr>"
  have wf: "otps_wf ?st" by (rule run_otps_wf)
  from assms(1) have "new \<in> set (otps ?st)" by (simp add: lookup_otp_SomeD)
  with wf have cn: "o_code new \<noteq> []" by (simp add: otps_wf_def)
  from wf assms(2,3) have ne: "e \<noteq> []" and co: "o_code old \<noteq> []"
    by (auto simp: otps_wf_def)
  have c1: "o_code old \<noteq> o_code new \<longrightarrow>
      verify_otp cfg env1 ?st (Some e) (JStr (o_code old)) role = (?st, Inl (401, invalid_otp))"
    using assms(1,7) ne co by (simp add: verify_otp_wrong_code)
  from verify_otp_accepts [OF assms(1) ne cn assms(7), of cfg role]
  obtain res1 where v1: "verify_otp cfg env1 ?st (Some e) (JStr (o_code new)) role = (?st1, Inr res1)"
    by blast
  from assms(2,5) have om: "old \<in> set (otps ?st1)"
    by (auto simp: consume_otp_def image_iff intro!: bexI [of _ old])
  from v1 om have c2: "o_code old = o_code new \<longrightarrow>
      (\<exists>st1 res. verify_otp cfg env1 ?st (Some e) (JStr (o_code old)) role = (st1, Inr res) \<and>
                  otps st1 = consume_otp (o_id new) (otps ?st) \<and> old \<in> set (otps st1))"
    by (intro impI exI [of _ ?st1] exI [of _ res1]) simp
  from assms(5) have "o_id old \<noteq> o_id new" by simp
  from lookup_otp_next [OF assms(2,3,4) this assms(6)]
  have l1: "lookup_otp ?st1 e = Some old" .
  from verify_otp_accepts [OF l1 ne co assms(8), of cfg role2]
  obtain st2 res2 where v2: "verify_otp cfg env2 ?st1 (Some e) (JStr (o_code old)) role2 = (st2, Inr res2)"
    by blast
  from v1 l1 v2 have c3: "\<exists>st1 res1 st2 res2.
            verify_otp cfg env1 ?st (Some e) (JStr (o_code new)) role = (st1, Inr res1) \<and>
            lookup_otp st1 e = Some old \<and>
            verify_otp cfg env2 st1 (Some e) (JStr (o_code old)) role2 = (st2, Inr res2)"
    by (intro exI [of _ ?st1] exI [of _ res1] exI [of _ st2] exI [of _ res2] conjI)
  from c1 c2 c3 show ?thesis by (intro conjI)
qed

lemma request_otp_issues:
  assumes "isValidEmailFormat e" and "domainHasMX env e"
  shows "fst (request_otp cfg env st (Some e)) =
           st\<lparr>otps := insert_otp e (generateOtp 6 (io_random env))
                         (io_now env + OTP_TTL cfg * 1000) (otps st),
               outbox := outbox st @ [(e, generateOtp 6 (io_random env))]\<rparr>"
  using assms valid_email_nonempty [OF assms(1)] by (simp add: request_otp_def Let_def)

text \<open>
  Claim C2. For every configuration there is a state, reached from an empty database by
  an issuance and a retry for the same email, with two unconsumed OTP rows for that
  email, both unexpired, in which \<^verbatim>\<open>POST /verify-otp\<close> with the code of the older row
  succeeds. The two rows of that state carry the same code, and the row consumed is the
  newer one.
\<close>

theorem older_code_consumable:
  "\<exists>evs env e old new st1 res.
      otps (run cfg init_world evs) = [old, new] \<and>
      o_email old = e \<and> o_email new = e \<and> o_id old < o_id new \<and>
      o_consumed old = 0 \<and> o_consumed new = 0 \<and>
      io_now env \<le> o_expiresAt old \<and> io_now env \<le> o_expiresAt new \<and>
      verify_otp cfg env (run cfg init_world evs) (Some e) (JStr (o_code old)) role =
        (st1, Inr res) \<and>
      otps st1 = [old, new\<lparr>o_consumed := 1\<rparr>]"
proof -
  let ?e = "''a@b.co''"
  let ?t = "OTP_TTL cfg * 1000"
  let ?evs = "[(demo_io_mailfails 0 1, RequestOtp (Some ?e)), (demo_io 0 1, RequestOtp (Some ?e))]"
  let ?env = "demo_io ?t 0"
  let ?old = "\<lparr>o_id = 1, o_email = ?e, o_code = ''111111'', o_expiresAt = ?t, o_consumed = 0\<rparr>"
  let ?new = "\<lparr>o_id = 2, o_email = ?e, o_code = ''111111'', o_expiresAt = ?t, o_consumed = 0\<rparr>"
  let ?st = "run cfg init_world ?evs"
  have v: "isValidEmailFormat ?e" by code_simp
  have m1: "domainHasMX (demo_io_mailfails 0 1) ?e" by code_simp
  have m2: "domainHasMX (demo_io 0 1) ?e" by code_simp
  have c1: "generateOtp 6 (io_random (demo_io_mailfails 0 1)) = ''111111''" by code_simp
  have c2: "generateOtp 6 (io_random (demo_io 0 1)) = ''111111''" by code_simp
  have n1: "io_now (demo_io_mailfails 0 1) = 0" and n2: "io_now (demo_io 0 1) = 0"
    and n3: "io_now ?env = ?t"
    by (simp_all add: demo_io_def demo_io_mailfails_def)
  let ?sa = "init_world\<lparr>otps := [?old], outbox := [(?e, ''111111'')]\<rparr>"
  let ?sb = "init_world\<lparr>otps := [?old, ?new], outbox := [(?e, ''111111''), (?e, ''111111'')]\<rparr>"
  have s1: "fst (request_otp cfg (demo_io_mailfails 0 1) init_world (Some ?e)) = ?sa"
    unfolding request_otp_issues [OF v m1] c1 n1
    by (simp add: insert_otp_def next_id_def init_world_def)
  have s2: "fst (request_otp cfg (demo_io 0 1) ?sa (Some ?e)) = ?sb"
    unfolding request_otp_issues [OF v m2] c2 n2
    by (simp add: insert_otp_def next_id_def init_world_def)
  have "?st = fst (request_otp cfg (demo_io 0 1)
                (fst (request_otp cfg (demo_io_mailfails 0 1) init_world (Some ?e))) (Some ?e))"
    by (simp only: run.simps handle.simps)
  then have st: "?st = ?sb" by (simp only: s1 s2)
  have os: "otps ?st = [?old, ?new]" unfolding st by simp
  then have l: "lookup_otp ?st ?e = Some ?new" by (simp add: lookup_otp_def)
  have le: "io_now ?env \<le> o_expiresAt ?new" by (simp add: n3)
  from verify_otp_accepts [OF l _ _ le, of cfg role]
  obtain res where r: "verify_otp cfg ?env ?st (Some ?e) (JStr (o_code ?new)) role =
      (?st\<lparr>otps := consume_otp (o_id ?new) (otps ?st),
            users := upsert_user ?e (finalRole role) (users ?st)\<rparr>, Inr res)"
    by auto
  let ?st1 = "?st\<lparr>otps := consume_otp (o_id ?new) (otps ?st),
            users := upsert_user ?e (finalRole role) (users ?st)\<rparr>"
  from r have r': "verify_otp cfg ?env ?st (Some ?e) (JStr (o_code ?old)) role = (?st1, Inr res)"
    by simp
  have o1: "otps ?st1 = [?old, ?new\<lparr>o_consumed := 1\<rparr>]"
    unfolding st by (simp add: consume_otp_def)
  have f: "o_email ?old = ?e \<and> o_email ?new = ?e \<and> o_id ?old < o_id ?new \<and>
      o_consumed ?old = 0 \<and> o_consumed ?new = 0 \<and>
      io_now ?env \<le> o_expiresAt ?old \<and> io_now ?env \<le> o_expiresAt ?new"
    by (simp add: n3)
  show ?thesis
    apply (rule exI [of _ ?evs], rule exI [of _ ?env], rule exI [of _ ?e])
    apply (rule exI [of _ ?old], rule exI [of _ ?new], rule exI [of _ ?st1], rule exI [of _ res])
    apply (intro conjI)
    using os f r' o1 by (assumption | blast)+
qed

text \<open>An issuance whose mail fails and a retry draw the same digits; the code of the older
  row is accepted.\<close>

theorem older_code_consumable_witness:
  "otps demo_same_code =
     [\<lparr>o_id = 1, o_email = ''a@b.co'', o_code = ''111111'', o_expiresAt = 600000, o_consumed = 0\<rparr>,
      \<lparr>o_id = 2, o_email = ''a@b.co'', o_code = ''111111'', o_expiresAt = 601000, o_consumed = 0\<rparr>] \<and>
   snd (verify_otp demo_config (demo_io 2000 0) demo_same_code (Some ''a@b.co'')
          (JStr ''111111'') JUndefined) =
     Inr (verified ''sharer:a@b.co'' ''a@b.co'' ''sharer'') \<and>
   otps (fst (verify_otp demo_config (demo_io 2000 0) demo_same_code (Some ''a@b.co'')
          (JStr ''111111'') JUndefined)) =
     [\<lparr>o_id = 1, o_email = ''a@b.co'', o_code = ''111111'', o_expiresAt = 600000, o_consumed = 0\<rparr>,
      \<lparr>o_id = 2, o_email = ''a@b.co'', o_code = ''111111'', o_expiresAt = 601000, o_consumed = 1\<rparr>]"
proof -
  have a: "otps demo_same_code =
     [\<lparr>o_id = 1, o_email = ''a@b.co'', o_code = ''111111'', o_expiresAt = 600000, o_consumed = 0\<rparr>,
      \<lparr>o_id = 2, o_email = ''a@b.co'', o_code = ''111111'', o_expiresAt = 601000, o_consumed = 0\<rparr>]"
    by code_simp
  have b: "snd (verify_otp demo_config (demo_io 2000 0) demo_same_code (Some ''a@b.co'')
          (JStr ''111111'') JUndefined) =
     Inr (verified ''sharer:a@b.co'' ''a@b.co'' ''sharer'')"
    by code_simp
  have c: "otps (fst (verify_otp demo_config (demo_io 2000 0) demo_same_code (Some ''a@b.co'')
          (JStr ''111111'') JUndefined)) =
     [\<lparr>o_id = 1, o_email = ''a@b.co'', o_code = ''111111'', o_expiresAt = 600000, o_consumed = 0\<rparr>,
      \<lparr>o_id = 2, o_email = ''a@b.co'', o_code = ''111111'', o_expiresAt = 601000, o_consumed = 1\<rparr>]"
    by code_simp
  from older_code_consumable [of demo_config JUndefined] a b c show ?thesis by blast
qed

text \<open>When the retry draws another code, the code of the older row is refused.\<close>

lemma older_code_refused_example:
  "otps demo_retried =
     [\<lparr>o_id = 1, o_email = ''a@b.co'', o_code = ''111111'', o_expiresAt = 600000, o_consumed = 0\<rparr>,
      \<lparr>o_id = 2, o_email = ''a@b.co'', o_code = ''222222'', o_expiresAt = 601000, o_consumed = 0\<rparr>] \<and>
   verify_otp demo_config (demo_io 2000 0) demo_retried (Some ''a@b.co'') (JStr ''111111'')
       JUndefined =
     (demo_retried, Inl (401, invalid_otp))"
proof -
  have b: "otps demo_retried =
     [\<lparr>o_id = 1, o_email = ''a@b.co'', o_code = ''111111'', o_expiresAt = 600000, o_consumed = 0\<rparr>,
      \<lparr>o_id = 2, o_email = ''a@b.co'', o_code = ''222222'', o_expiresAt = 601000, o_consumed = 0\<rparr>]"
    by code_simp
  have l: "lookup_otp demo_retried ''a@b.co'' =
      Some \<lparr>o_id = 2, o_email = ''a@b.co'', o_code = ''222222'', o_expiresAt = 601000,
            o_consumed = 0\<rparr>"
    by code_simp
  have c: "verify_otp demo_config (demo_io 2000 0) demo_retried (Some ''a@b.co'')
       (JStr ''111111'') JUndefined = (demo_retried, Inl (401, invalid_otp))"
    using l by (simp add: verify_otp_def demo_io_def)
  from b c show ?thesis by simp
qed

end
